theory Spec2Isabelle
  imports Main "HOL-Library.Sublist"
begin

section \<open>Data model\<close>

text \<open>
  The repository holds several generations of one program, a follower scraper that pages
  through an HTTP API and writes each page into one SQLite table:
  \<^item> \<^verbatim>\<open>main.go\<close>: one request per page, no retry;
  \<^item> \<^verbatim>\<open>unnamed/part_000\<close>: adds the retry loop;
  \<^item> \<^verbatim>\<open>unnamed/part_001\<close>: the resume variant (start cursor, extended schema, rollback);
  \<^item> \<^verbatim>\<open>clean_start/main.go\<close>, first program: the clean-start variant with a context;
  \<^item> \<^verbatim>\<open>clean_start/main.go\<close>, second program: the resume variant with a context.

  A \<^verbatim>\<open>time.Time\<close> is an instant; only its identity matters here.
\<close>

type_synonym time = int

text \<open>\<^verbatim>\<open>type Follower struct\<close> of the clean-start variant and of \<^verbatim>\<open>main.go\<close>.\<close>

record Follower =
  DID :: string
  Handle :: string
  DisplayName :: string
  Avatar :: string
  CreatedAt :: time
  IndexedAt :: time

record Viewer =
  Muted :: bool
  BlockedBy :: bool
  Following :: string

record Label =
  Type :: string
  Value :: string

text \<open>
  \<^verbatim>\<open>type Follower struct\<close> of the resume variant: the same fields and three more, so it is
  the extension of the record above.
\<close>

record FollowerR = Follower +
  Viewer :: Viewer
  Labels :: "Label list"
  Description :: string

record 'f APIResponse =
  Followers :: "'f list"
  Cursor :: string

definition baseURL :: string where
  "baseURL = ''https://public.api.bsky.app/xrpc/app.bsky.graph.getFollowers?actor=did%3Aplc%3Az72i7hdynmk6r22z27h6tvur&limit=30''"

definition maxRetries :: nat where
  "maxRetries = 5"

definition StatusOK :: nat where
  "StatusOK = 200"

text \<open>Every error value the programs build, one constructor per message.\<close>

datatype error =
    BeginFailed                 \<comment> \<open>\<^verbatim>\<open>failed to begin transaction\<close>\<close>
  | PrepareFailed               \<comment> \<open>\<^verbatim>\<open>failed to prepare statement\<close>\<close>
  | PrepareFailedRollbackFailed \<comment> \<open>\<^verbatim>\<open>failed to prepare statement: ..., rollback failed\<close>\<close>
  | ExecFailed                  \<comment> \<open>\<^verbatim>\<open>failed to execute statement\<close>\<close>
  | ExecFailedRollbackFailed    \<comment> \<open>\<^verbatim>\<open>failed to execute statement: ..., rollback failed\<close>\<close>
  | ExecFailedFor string        \<comment> \<open>\<^verbatim>\<open>failed to execute statement for follower %s\<close>\<close>
  | CommitFailed                \<comment> \<open>\<^verbatim>\<open>failed to commit transaction\<close>\<close>
  | ExceededMaxRetries string   \<comment> \<open>\<^verbatim>\<open>exceeded max retries for cursor %s\<close>\<close>
  | ContextCanceled             \<comment> \<open>\<^verbatim>\<open>ctx.Err()\<close>\<close>
  | NewRequestFailed            \<comment> \<open>the error of \<^verbatim>\<open>http.NewRequestWithContext\<close>\<close>

section \<open>The store\<close>

text \<open>
  The table \<^verbatim>\<open>followers\<close> has \<^verbatim>\<open>did TEXT PRIMARY KEY\<close>, so its content is a map from the
  \<^verbatim>\<open>did\<close> to the other columns. The two schemas of \<^verbatim>\<open>initializeDB\<close>:
\<close>

record row =
  handle :: string
  displayName :: string
  avatar :: string
  createdAt :: time
  indexedAt :: time

record rowR = row +
  viewer_muted :: bool
  viewer_blockedBy :: bool
  viewer_following :: string
  labels :: string
  description :: string

text \<open>
  A database is its committed table and the uncommitted table of the transaction in
  progress, if any. \<^verbatim>\<open>db.Begin\<close> opens a transaction on a copy of the committed table,
  a statement executed in the transaction changes the copy only, \<^verbatim>\<open>tx.Commit\<close> makes
  the copy the committed table and \<^verbatim>\<open>tx.Rollback\<close> drops it. A commit that fails is
  rolled back by the driver.
\<close>

record 'r database =
  table :: "string \<rightharpoonup> 'r"
  open_tx :: "(string \<rightharpoonup> 'r) option"

text \<open>
  The calls that can fail, decided by the environment: \<^verbatim>\<open>db.Begin\<close>, \<^verbatim>\<open>tx.Prepare\<close>,
  \<^verbatim>\<open>stmt.Exec\<close> on a given record, \<^verbatim>\<open>tx.Rollback\<close> (its error only; the uncommitted
  writes are dropped all the same) and \<^verbatim>\<open>tx.Commit\<close>.
\<close>

record 'f faults =
  begin_fails :: bool
  prepare_fails :: bool
  exec_fails :: "'f \<Rightarrow> bool"
  rollback_fails :: bool
  commit_fails :: bool

definition db_Begin :: "'r database \<Rightarrow> 'r database" where
  "db_Begin db = db\<lparr>open_tx := Some (table db)\<rparr>"

text \<open>\<^verbatim>\<open>INSERT OR REPLACE\<close> of one row, inside the open transaction.\<close>

definition tx_Exec :: "string \<Rightarrow> 'r \<Rightarrow> 'r database \<Rightarrow> 'r database" where
  "tx_Exec k r db = db\<lparr>open_tx := map_option (\<lambda>t. t(k \<mapsto> r)) (open_tx db)\<rparr>"

definition tx_Rollback :: "'r database \<Rightarrow> 'r database" where
  "tx_Rollback db = db\<lparr>open_tx := None\<rparr>"

definition tx_Commit :: "'r database \<Rightarrow> 'r database" where
  "tx_Commit db =
     (case open_tx db of
        None \<Rightarrow> db
      | Some t \<Rightarrow> db\<lparr>table := t, open_tx := None\<rparr>)"

section \<open>Persistence writer\<close>

text \<open>The columns bound by \<^verbatim>\<open>stmt.Exec\<close> in \<^verbatim>\<open>main.go\<close> and in the clean-start variant.\<close>

definition row_of :: "'a Follower_scheme \<Rightarrow> row" where
  "row_of f =
     \<lparr>handle = Handle f, displayName = DisplayName f, avatar = Avatar f,
      createdAt = CreatedAt f, indexedAt = IndexedAt f\<rparr>"

text \<open>\<^verbatim>\<open>strings.Join(elems, sep)\<close>.\<close>

fun strings_Join :: "string list \<Rightarrow> string \<Rightarrow> string" where
  "strings_Join [] sep = []"
| "strings_Join [x] sep = x"
| "strings_Join (x # y # ys) sep = x @ sep @ strings_Join (y # ys) sep"

text \<open>
  The inner loop of \<^verbatim>\<open>saveFollowers\<close> in the resume variant: every label becomes
  \<^verbatim>\<open>fmt.Sprintf("%s:%s", label.Type, label.Value)\<close>, and the pieces are joined by a comma.
\<close>

definition labelStr :: "Label list \<Rightarrow> string" where
  "labelStr ls = strings_Join (map (\<lambda>l. Type l @ '':'' @ Value l) ls) '',''"

definition rowR_of :: "FollowerR \<Rightarrow> rowR" where
  "rowR_of f =
     \<lparr>handle = Handle f, displayName = DisplayName f, avatar = Avatar f,
      createdAt = CreatedAt f, indexedAt = IndexedAt f,
      viewer_muted = Muted (Viewer f), viewer_blockedBy = BlockedBy (Viewer f),
      viewer_following = Following (Viewer f), labels = labelStr (Labels f),
      description = Description f\<rparr>"

text \<open>
  \<^verbatim>\<open>saveFollowers\<close> of \<^verbatim>\<open>main.go\<close> (and of \<^verbatim>\<open>unnamed/part_000\<close>, the same text): an
  error of \<^verbatim>\<open>Prepare\<close> or \<^verbatim>\<open>Exec\<close> returns at once, and the transaction stays open.
\<close>

fun saveFollowers_basic_loop ::
  "Follower faults \<Rightarrow> Follower list \<Rightarrow> row database \<Rightarrow> error option \<times> row database" where
  "saveFollowers_basic_loop flt [] db = (None, db)"
| "saveFollowers_basic_loop flt (follower # rest) db =
     (if exec_fails flt follower then (Some ExecFailed, db)
      else saveFollowers_basic_loop flt rest (tx_Exec (DID follower) (row_of follower) db))"

definition saveFollowers_basic ::
  "Follower faults \<Rightarrow> row database \<Rightarrow> Follower list \<Rightarrow> error option \<times> row database" where
  "saveFollowers_basic flt db followers =
     (if begin_fails flt then (Some BeginFailed, db)
      else let db = db_Begin db in
        if prepare_fails flt then (Some PrepareFailed, db)
        else case saveFollowers_basic_loop flt followers db of
          (Some err, db) \<Rightarrow> (Some err, db)
        | (None, db) \<Rightarrow>
            if commit_fails flt then (Some CommitFailed, tx_Rollback db)
            else (None, tx_Commit db))"

text \<open>
  \<^verbatim>\<open>saveFollowers\<close> of the clean-start variant: every error path rolls the transaction
  back, and reports a failed rollback in the error.
\<close>

fun saveFollowers_clean_loop ::
  "Follower faults \<Rightarrow> Follower list \<Rightarrow> row database \<Rightarrow> error option \<times> row database" where
  "saveFollowers_clean_loop flt [] db = (None, db)"
| "saveFollowers_clean_loop flt (follower # rest) db =
     (if exec_fails flt follower then
        (if rollback_fails flt then (Some ExecFailedRollbackFailed, tx_Rollback db)
         else (Some ExecFailed, tx_Rollback db))
      else saveFollowers_clean_loop flt rest (tx_Exec (DID follower) (row_of follower) db))"

definition saveFollowers_clean ::
  "Follower faults \<Rightarrow> row database \<Rightarrow> Follower list \<Rightarrow> error option \<times> row database" where
  "saveFollowers_clean flt db followers =
     (if begin_fails flt then (Some BeginFailed, db)
      else let db = db_Begin db in
        if prepare_fails flt then
          (if rollback_fails flt then (Some PrepareFailedRollbackFailed, tx_Rollback db)
           else (Some PrepareFailed, tx_Rollback db))
        else case saveFollowers_clean_loop flt followers db of
          (Some err, db) \<Rightarrow> (Some err, db)
        | (None, db) \<Rightarrow>
            if commit_fails flt then (Some CommitFailed, tx_Rollback db)
            else (None, tx_Commit db))"

text \<open>
  \<^verbatim>\<open>saveFollowers\<close> of the resume variant (\<^verbatim>\<open>unnamed/part_001\<close>, and the second program
  of \<^verbatim>\<open>clean_start/main.go\<close>): the extended row with the serialised labels; an error of
  \<^verbatim>\<open>Prepare\<close> or \<^verbatim>\<open>Exec\<close> rolls back, ignoring what \<^verbatim>\<open>Rollback\<close> returns.
\<close>

fun saveFollowers_resume_loop ::
  "FollowerR faults \<Rightarrow> FollowerR list \<Rightarrow> rowR database \<Rightarrow> error option \<times> rowR database" where
  "saveFollowers_resume_loop flt [] db = (None, db)"
| "saveFollowers_resume_loop flt (follower # rest) db =
     (if exec_fails flt follower then (Some (ExecFailedFor (DID follower)), tx_Rollback db)
      else saveFollowers_resume_loop flt rest (tx_Exec (DID follower) (rowR_of follower) db))"

definition saveFollowers_resume ::
  "FollowerR faults \<Rightarrow> rowR database \<Rightarrow> FollowerR list \<Rightarrow> error option \<times> rowR database" where
  "saveFollowers_resume flt db followers =
     (if begin_fails flt then (Some BeginFailed, db)
      else let db = db_Begin db in
        if prepare_fails flt then (Some PrepareFailed, tx_Rollback db)
        else case saveFollowers_resume_loop flt followers db of
          (Some err, db) \<Rightarrow> (Some err, db)
        | (None, db) \<Rightarrow>
            if commit_fails flt then (Some CommitFailed, tx_Rollback db)
            else (None, tx_Commit db))"

section \<open>Page fetcher\<close>

text \<open>
  What one HTTP exchange gives back. The program looks at a body only through
  \<^verbatim>\<open>http.DetectContentType\<close> and \<^verbatim>\<open>json.Unmarshal\<close>, so a body that was read is
  the pair of their results: the sniffed content type and the decoded response, if the
  bytes decode.
\<close>

datatype 'f body =
    ReadError                             \<comment> \<open>\<^verbatim>\<open>io.ReadAll\<close> returns an error\<close>
  | Body string "'f APIResponse option"   \<comment> \<open>sniffed content type, decoded response\<close>

datatype 'f reply =
    NoResponse                            \<comment> \<open>\<^verbatim>\<open>http.Get\<close> / \<^verbatim>\<open>client.Do\<close> returns an error\<close>
  | Response nat "'f body"                \<comment> \<open>status code and body\<close>

text \<open>
  The environment of a run: the reply to the n-th request of the run to a URL, whether
  \<^verbatim>\<open>http.NewRequestWithContext\<close> accepts a URL, the time at which the context is
  cancelled (if ever), and what fails in the n-th call of \<^verbatim>\<open>saveFollowers\<close>.
\<close>

record 'f world =
  reply :: "nat \<Rightarrow> string \<Rightarrow> 'f reply"
  request_ok :: "string \<Rightarrow> bool"
  cancel_at :: "nat option"
  db_faults :: "nat \<Rightarrow> 'f faults"

text \<open>What the fetcher writes to the log, one constructor per message, and its sleeps.\<close>

datatype event =
    MakingRequest nat string    \<comment> \<open>\<^verbatim>\<open>Making API request\<close>, with the attempt and the URL\<close>
  | CreateRequestFailed         \<comment> \<open>\<^verbatim>\<open>Failed to create request\<close>\<close>
  | RequestFailed               \<comment> \<open>\<^verbatim>\<open>Failed to make API request. Retrying...\<close>\<close>
  | NonOKStatus nat             \<comment> \<open>\<^verbatim>\<open>API returned non-OK status. Retrying...\<close>\<close>
  | ReadBodyFailed              \<comment> \<open>\<^verbatim>\<open>Failed to read response body. Retrying...\<close>\<close>
  | ReceivedHTML                \<comment> \<open>\<^verbatim>\<open>Received HTML response (likely an error page)\<close>\<close>
  | UnmarshalFailed             \<comment> \<open>\<^verbatim>\<open>Failed to unmarshal JSON. Retrying after backoff...\<close>\<close>
  | Parsed                      \<comment> \<open>\<^verbatim>\<open>Parsed followers from response\<close> / \<^verbatim>\<open>Returning followers\<close>\<close>
  | Slept nat                   \<comment> \<open>\<^verbatim>\<open>time.Sleep\<close> of that many seconds\<close>
  | ErrorFetching error         \<comment> \<open>\<^verbatim>\<open>Error fetching followers\<close>\<close>
  | ErrorSaving error           \<comment> \<open>\<^verbatim>\<open>Error saving followers\<close>\<close>
  | CancelledBeforeFetch string \<comment> \<open>\<^verbatim>\<open>Context cancelled, stopping fetch\<close>, with \<^verbatim>\<open>last_cursor\<close>\<close>
  | CancelledDuringFetch        \<comment> \<open>\<^verbatim>\<open>Context cancelled during fetch\<close>\<close>
  | AllProcessed                \<comment> \<open>\<^verbatim>\<open>All followers processed\<close>\<close>

text \<open>
  The state a run threads through: a clock in seconds, advanced by \<^verbatim>\<open>time.Sleep\<close> only
  (a request takes no time on this clock), the number of requests sent so far, and the
  trace of log lines and sleeps.
\<close>

record run =
  clock :: nat
  requests :: nat
  trace :: "event list"

definition logs :: "event \<Rightarrow> run \<Rightarrow> run" where
  "logs ev st = st\<lparr>trace := trace st @ [ev]\<rparr>"

definition time_Sleep :: "nat \<Rightarrow> run \<Rightarrow> run" where
  "time_Sleep n st = st\<lparr>clock := clock st + n, trace := trace st @ [Slept n]\<rparr>"

definition http_Get :: "'f world \<Rightarrow> string \<Rightarrow> run \<Rightarrow> 'f reply \<times> run" where
  "http_Get w url st = (reply w (requests st) url, st\<lparr>requests := Suc (requests st)\<rparr>)"

text \<open>\<^verbatim>\<open>ctx.Err() != nil\<close> at a time of the clock.\<close>

definition ctx_Err :: "'f world \<Rightarrow> nat \<Rightarrow> bool" where
  "ctx_Err w t = (case cancel_at w of None \<Rightarrow> False | Some c \<Rightarrow> c \<le> t)"

text \<open>The first lines of every \<^verbatim>\<open>fetchFollowers\<close>: the URL of the page at a cursor.\<close>

definition request_url :: "string \<Rightarrow> string" where
  "request_url cursor = (if cursor \<noteq> [] then baseURL @ ''&cursor='' @ cursor else baseURL)"

text \<open>
  The retry loop of \<^verbatim>\<open>unnamed/part_000\<close>: no status check, and the sniffed type is
  compared with \<^verbatim>\<open>"text/html"\<close>. That file uses \<^verbatim>\<open>maxRetries\<close> without declaring it;
  it has the value the later variants declare.
\<close>

function fetchFollowers_p0_loop ::
  "'f world \<Rightarrow> string \<Rightarrow> string \<Rightarrow> nat \<Rightarrow> run \<Rightarrow> (error + 'f APIResponse) \<times> run" where
  "fetchFollowers_p0_loop w cursor url attempt st =
     (if attempt \<le> maxRetries then
        (case http_Get w url (logs (MakingRequest attempt url) st) of
           (NoResponse, st) \<Rightarrow>
             fetchFollowers_p0_loop w cursor url (Suc attempt)
               (time_Sleep attempt (logs RequestFailed st))
         | (Response status ReadError, st) \<Rightarrow>
             fetchFollowers_p0_loop w cursor url (Suc attempt)
               (time_Sleep attempt (logs ReadBodyFailed st))
         | (Response status (Body contentType parsed), st) \<Rightarrow>
             if contentType = ''text/html'' then
               fetchFollowers_p0_loop w cursor url (Suc attempt)
                 (time_Sleep attempt (logs ReceivedHTML st))
             else (case parsed of
                 None \<Rightarrow>
                   fetchFollowers_p0_loop w cursor url (Suc attempt)
                     (time_Sleep attempt (logs UnmarshalFailed st))
               | Some apiResp \<Rightarrow> (Inr apiResp, logs Parsed st)))
      else (Inl (ExceededMaxRetries cursor), st))"
  by pat_completeness auto
termination
  by (relation "measure (\<lambda>(w, cursor, url, attempt, st). Suc maxRetries - attempt)") auto

definition fetchFollowers_p0 ::
  "'f world \<Rightarrow> string \<Rightarrow> run \<Rightarrow> (error + 'f APIResponse) \<times> run" where
  "fetchFollowers_p0 w cursor st = fetchFollowers_p0_loop w cursor (request_url cursor) 1 st"

text \<open>
  The retry loop of \<^verbatim>\<open>unnamed/part_001\<close>: the status is checked, and the sniffed type is
  compared with \<^verbatim>\<open>"text/html; charset=utf-8"\<close>.
\<close>

function fetchFollowers_resume_loop ::
  "'f world \<Rightarrow> string \<Rightarrow> string \<Rightarrow> nat \<Rightarrow> run \<Rightarrow> (error + 'f APIResponse) \<times> run" where
  "fetchFollowers_resume_loop w cursor url attempt st =
     (if attempt \<le> maxRetries then
        (case http_Get w url (logs (MakingRequest attempt url) st) of
           (NoResponse, st) \<Rightarrow>
             fetchFollowers_resume_loop w cursor url (Suc attempt)
               (time_Sleep attempt (logs RequestFailed st))
         | (Response status body, st) \<Rightarrow>
             if status \<noteq> StatusOK then
               fetchFollowers_resume_loop w cursor url (Suc attempt)
                 (time_Sleep attempt (logs (NonOKStatus status) st))
             else (case body of
                 ReadError \<Rightarrow>
                   fetchFollowers_resume_loop w cursor url (Suc attempt)
                     (time_Sleep attempt (logs ReadBodyFailed st))
               | Body contentType parsed \<Rightarrow>
                   if contentType = ''text/html; charset=utf-8'' then
                     fetchFollowers_resume_loop w cursor url (Suc attempt)
                       (time_Sleep attempt (logs ReceivedHTML st))
                   else (case parsed of
                       None \<Rightarrow>
                         fetchFollowers_resume_loop w cursor url (Suc attempt)
                           (time_Sleep attempt (logs UnmarshalFailed st))
                     | Some apiResp \<Rightarrow> (Inr apiResp, logs Parsed st))))
      else (Inl (ExceededMaxRetries cursor), st))"
  by pat_completeness auto
termination
  by (relation "measure (\<lambda>(w, cursor, url, attempt, st). Suc maxRetries - attempt)") auto

definition fetchFollowers_resume ::
  "'f world \<Rightarrow> string \<Rightarrow> run \<Rightarrow> (error + 'f APIResponse) \<times> run" where
  "fetchFollowers_resume w cursor st =
     fetchFollowers_resume_loop w cursor (request_url cursor) 1 st"

text \<open>
  The retry loop of the clean-start variant: the context is checked at the head of every
  attempt, a request that cannot be built ends the fetch, and the sniffed type is tested
  with \<^verbatim>\<open>strings.HasPrefix(contentType, "text/html")\<close>.
\<close>

function fetchFollowers_clean_loop ::
  "'f world \<Rightarrow> string \<Rightarrow> string \<Rightarrow> nat \<Rightarrow> run \<Rightarrow> (error + 'f APIResponse) \<times> run" where
  "fetchFollowers_clean_loop w cursor url attempt st =
     (if attempt \<le> maxRetries then
        if ctx_Err w (clock st) then (Inl ContextCanceled, st)
        else if \<not> request_ok w url then
          (Inl NewRequestFailed, logs CreateRequestFailed (logs (MakingRequest attempt url) st))
        else (case http_Get w url (logs (MakingRequest attempt url) st) of
           (NoResponse, st) \<Rightarrow>
             fetchFollowers_clean_loop w cursor url (Suc attempt)
               (time_Sleep attempt (logs RequestFailed st))
         | (Response status body, st) \<Rightarrow>
             if status \<noteq> StatusOK then
               fetchFollowers_clean_loop w cursor url (Suc attempt)
                 (time_Sleep attempt (logs (NonOKStatus status) st))
             else (case body of
                 ReadError \<Rightarrow>
                   fetchFollowers_clean_loop w cursor url (Suc attempt)
                     (time_Sleep attempt (logs ReadBodyFailed st))
               | Body contentType parsed \<Rightarrow>
                   if prefix ''text/html'' contentType then
                     fetchFollowers_clean_loop w cursor url (Suc attempt)
                       (time_Sleep attempt (logs ReceivedHTML st))
                   else (case parsed of
                       None \<Rightarrow>
                         fetchFollowers_clean_loop w cursor url (Suc attempt)
                           (time_Sleep attempt (logs UnmarshalFailed st))
                     | Some apiResp \<Rightarrow> (Inr apiResp, logs Parsed st))))
      else (Inl (ExceededMaxRetries cursor), st))"
  by pat_completeness auto
termination
  by (relation "measure (\<lambda>(w, cursor, url, attempt, st). Suc maxRetries - attempt)") auto

definition fetchFollowers_clean ::
  "'f world \<Rightarrow> string \<Rightarrow> run \<Rightarrow> (error + 'f APIResponse) \<times> run" where
  "fetchFollowers_clean w cursor st =
     fetchFollowers_clean_loop w cursor (request_url cursor) 1 st"

text \<open>
  The retry loop of the resume variant with a context (second program of
  \<^verbatim>\<open>clean_start/main.go\<close>): as the clean-start one, with the sniffed type compared with
  \<^verbatim>\<open>"text/html; charset=utf-8"\<close>.
\<close>

function fetchFollowers_resume_ctx_loop ::
  "'f world \<Rightarrow> string \<Rightarrow> string \<Rightarrow> nat \<Rightarrow> run \<Rightarrow> (error + 'f APIResponse) \<times> run" where
  "fetchFollowers_resume_ctx_loop w cursor url attempt st =
     (if attempt \<le> maxRetries then
        if ctx_Err w (clock st) then (Inl ContextCanceled, st)
        else if \<not> request_ok w url then
          (Inl NewRequestFailed, logs CreateRequestFailed (logs (MakingRequest attempt url) st))
        else (case http_Get w url (logs (MakingRequest attempt url) st) of
           (NoResponse, st) \<Rightarrow>
             fetchFollowers_resume_ctx_loop w cursor url (Suc attempt)
               (time_Sleep attempt (logs RequestFailed st))
         | (Response status body, st) \<Rightarrow>
             if status \<noteq> StatusOK then
               fetchFollowers_resume_ctx_loop w cursor url (Suc attempt)
                 (time_Sleep attempt (logs (NonOKStatus status) st))
             else (case body of
                 ReadError \<Rightarrow>
                   fetchFollowers_resume_ctx_loop w cursor url (Suc attempt)
                     (time_Sleep attempt (logs ReadBodyFailed st))
               | Body contentType parsed \<Rightarrow>
                   if contentType = ''text/html; charset=utf-8'' then
                     fetchFollowers_resume_ctx_loop w cursor url (Suc attempt)
                       (time_Sleep attempt (logs ReceivedHTML st))
                   else (case parsed of
                       None \<Rightarrow>
                         fetchFollowers_resume_ctx_loop w cursor url (Suc attempt)
                           (time_Sleep attempt (logs UnmarshalFailed st))
                     | Some apiResp \<Rightarrow> (Inr apiResp, logs Parsed st))))
      else (Inl (ExceededMaxRetries cursor), st))"
  by pat_completeness auto
termination
  by (relation "measure (\<lambda>(w, cursor, url, attempt, st). Suc maxRetries - attempt)") auto

definition fetchFollowers_resume_ctx ::
  "'f world \<Rightarrow> string \<Rightarrow> run \<Rightarrow> (error + 'f APIResponse) \<times> run" where
  "fetchFollowers_resume_ctx w cursor st =
     fetchFollowers_resume_ctx_loop w cursor (request_url cursor) 1 st"

section \<open>Pagination driver\<close>

text \<open>
  How a run of \<^verbatim>\<open>main\<close> ends: the loop is left by \<^verbatim>\<open>break\<close> (\<open>DONE\<close>), by
  \<^verbatim>\<open>os.Exit(1)\<close> after an error (\<open>FAILED\<close>) or by \<^verbatim>\<open>return\<close> on a cancelled context
  (\<open>CANCELLED\<close>).
\<close>

datatype status = DONE | FAILED error | CANCELLED

text \<open>
  The variables of the loop of \<^verbatim>\<open>main\<close>: the fetcher's state, the database, the
  cursor, and the batches handed to \<^verbatim>\<open>saveFollowers\<close> so far, in order.
\<close>

record ('f, 'r) pipeline =
  net :: run
  store :: "'r database"
  cursor :: string
  persist_calls :: "'f list list"

definition net_logs :: "event \<Rightarrow> ('f, 'r) pipeline \<Rightarrow> ('f, 'r) pipeline" where
  "net_logs ev s = s\<lparr>net := logs ev (net s)\<rparr>"

text \<open>
  One pass through the body of the \<^verbatim>\<open>for\<close> loop of the clean-start \<^verbatim>\<open>main\<close>;
  \<open>None\<close> as status means that the loop goes on.
\<close>

definition main_clean_step ::
  "Follower world \<Rightarrow> (Follower, row) pipeline \<Rightarrow> status option \<times> (Follower, row) pipeline" where
  "main_clean_step w s =
     (if ctx_Err w (clock (net s)) then
        (Some CANCELLED, net_logs (CancelledBeforeFetch (cursor s)) s)
      else case fetchFollowers_clean w (cursor s) (net s) of
        (Inl err, n) \<Rightarrow>
          if ctx_Err w (clock n) then (Some CANCELLED, s\<lparr>net := logs CancelledDuringFetch n\<rparr>)
          else (Some (FAILED err), s\<lparr>net := logs (ErrorFetching err) n\<rparr>)
      | (Inr apiResp, n) \<Rightarrow>
          (case saveFollowers_clean (db_faults w (length (persist_calls s))) (store s)
                  (Followers apiResp) of
             (Some err, d) \<Rightarrow>
               (Some (FAILED err),
                s\<lparr>net := logs (ErrorSaving err) n, store := d,
                  persist_calls := persist_calls s @ [Followers apiResp]\<rparr>)
           | (None, d) \<Rightarrow>
               if Cursor apiResp = [] then
                 (Some DONE,
                  s\<lparr>net := logs AllProcessed n, store := d,
                    persist_calls := persist_calls s @ [Followers apiResp]\<rparr>)
               else
                 (None,
                  s\<lparr>net := n, store := d, cursor := Cursor apiResp,
                    persist_calls := persist_calls s @ [Followers apiResp]\<rparr>)))"

text \<open>
  The \<^verbatim>\<open>for\<close> loop has no bound in the source. Here it runs on fuel, one unit per pass,
  and \<open>None\<close> is a run that has not stopped when the fuel is spent.
\<close>

fun main_clean_loop ::
  "nat \<Rightarrow> Follower world \<Rightarrow> (Follower, row) pipeline \<Rightarrow>
   (status \<times> (Follower, row) pipeline) option" where
  "main_clean_loop 0 w s = None"
| "main_clean_loop (Suc fuel) w s =
     (case main_clean_step w s of
        (Some st, s') \<Rightarrow> Some (st, s')
      | (None, s') \<Rightarrow> main_clean_loop fuel w s')"

text \<open>The state in which \<^verbatim>\<open>main\<close> enters its loop, given the database and the cursor.\<close>

definition start :: "'r database \<Rightarrow> string \<Rightarrow> ('f, 'r) pipeline" where
  "start db c =
     \<lparr>net = \<lparr>clock = 0, requests = 0, trace = []\<rparr>, store = db, cursor = c,
      persist_calls = []\<rparr>"

definition main_clean ::
  "nat \<Rightarrow> Follower world \<Rightarrow> row database \<Rightarrow> (status \<times> (Follower, row) pipeline) option" where
  "main_clean fuel w db = main_clean_loop fuel w (start db [])"

text \<open>
  The loop body of \<^verbatim>\<open>main\<close> in \<^verbatim>\<open>unnamed/part_001\<close>: an error of the fetch sleeps two
  seconds and goes round again, an error of the save goes round again, both with the
  cursor as it was.
\<close>

definition main_resume_step ::
  "FollowerR world \<Rightarrow> (FollowerR, rowR) pipeline \<Rightarrow>
   status option \<times> (FollowerR, rowR) pipeline" where
  "main_resume_step w s =
     (case fetchFollowers_resume w (cursor s) (net s) of
        (Inl err, n) \<Rightarrow> (None, s\<lparr>net := time_Sleep 2 (logs (ErrorFetching err) n)\<rparr>)
      | (Inr apiResp, n) \<Rightarrow>
          (case saveFollowers_resume (db_faults w (length (persist_calls s))) (store s)
                  (Followers apiResp) of
             (Some err, d) \<Rightarrow>
               (None,
                s\<lparr>net := logs (ErrorSaving err) n, store := d,
                  persist_calls := persist_calls s @ [Followers apiResp]\<rparr>)
           | (None, d) \<Rightarrow>
               if Cursor apiResp = [] then
                 (Some DONE,
                  s\<lparr>net := logs AllProcessed n, store := d,
                    persist_calls := persist_calls s @ [Followers apiResp]\<rparr>)
               else
                 (None,
                  s\<lparr>net := n, store := d, cursor := Cursor apiResp,
                    persist_calls := persist_calls s @ [Followers apiResp]\<rparr>)))"

fun main_resume_loop ::
  "nat \<Rightarrow> FollowerR world \<Rightarrow> (FollowerR, rowR) pipeline \<Rightarrow>
   (status \<times> (FollowerR, rowR) pipeline) option" where
  "main_resume_loop 0 w s = None"
| "main_resume_loop (Suc fuel) w s =
     (case main_resume_step w s of
        (Some st, s') \<Rightarrow> Some (st, s')
      | (None, s') \<Rightarrow> main_resume_loop fuel w s')"

definition main_resume ::
  "nat \<Rightarrow> FollowerR world \<Rightarrow> string \<Rightarrow> rowR database \<Rightarrow>
   (status \<times> (FollowerR, rowR) pipeline) option" where
  "main_resume fuel w startCursor db = main_resume_loop fuel w (start db startCursor)"

text \<open>
  The loop body of the resume variant with a context (second program of
  \<^verbatim>\<open>clean_start/main.go\<close>): as above, and it returns when the context is cancelled.
\<close>

definition main_resume_ctx_step ::
  "FollowerR world \<Rightarrow> (FollowerR, rowR) pipeline \<Rightarrow>
   status option \<times> (FollowerR, rowR) pipeline" where
  "main_resume_ctx_step w s =
     (if ctx_Err w (clock (net s)) then
        (Some CANCELLED, net_logs (CancelledBeforeFetch (cursor s)) s)
      else case fetchFollowers_resume_ctx w (cursor s) (net s) of
        (Inl err, n) \<Rightarrow>
          if ctx_Err w (clock n) then (Some CANCELLED, s\<lparr>net := logs CancelledDuringFetch n\<rparr>)
          else (None, s\<lparr>net := time_Sleep 2 (logs (ErrorFetching err) n)\<rparr>)
      | (Inr apiResp, n) \<Rightarrow>
          (case saveFollowers_resume (db_faults w (length (persist_calls s))) (store s)
                  (Followers apiResp) of
             (Some err, d) \<Rightarrow>
               (None,
                s\<lparr>net := logs (ErrorSaving err) n, store := d,
                  persist_calls := persist_calls s @ [Followers apiResp]\<rparr>)
           | (None, d) \<Rightarrow>
               if Cursor apiResp = [] then
                 (Some DONE,
                  s\<lparr>net := logs AllProcessed n, store := d,
                    persist_calls := persist_calls s @ [Followers apiResp]\<rparr>)
               else
                 (None,
                  s\<lparr>net := n, store := d, cursor := Cursor apiResp,
                    persist_calls := persist_calls s @ [Followers apiResp]\<rparr>)))"

fun main_resume_ctx_loop ::
  "nat \<Rightarrow> FollowerR world \<Rightarrow> (FollowerR, rowR) pipeline \<Rightarrow>
   (status \<times> (FollowerR, rowR) pipeline) option" where
  "main_resume_ctx_loop 0 w s = None"
| "main_resume_ctx_loop (Suc fuel) w s =
     (case main_resume_ctx_step w s of
        (Some st, s') \<Rightarrow> Some (st, s')
      | (None, s') \<Rightarrow> main_resume_ctx_loop fuel w s')"

definition main_resume_ctx ::
  "nat \<Rightarrow> FollowerR world \<Rightarrow> string \<Rightarrow> rowR database \<Rightarrow>
   (status \<times> (FollowerR, rowR) pipeline) option" where
  "main_resume_ctx fuel w startCursor db = main_resume_ctx_loop fuel w (start db startCursor)"

section \<open>Test data and vocabulary of the properties\<close>

text \<open>Records of \<^verbatim>\<open>main_test.go\<close>, all created at the same instant.\<close>

definition testFollower1 :: FollowerR where
  "testFollower1 =
     \<lparr>DID = ''did:plc:test123'', Handle = ''testuser.bsky.social'', DisplayName = ''Test User'',
      Avatar = ''https://example.com/avatar.jpg'', CreatedAt = 0, IndexedAt = 0,
      Viewer = \<lparr>Muted = False, BlockedBy = False,
                Following = ''at://did:plc:test123/app.bsky.graph.follow/test''\<rparr>,
      Labels = [\<lparr>Type = ''label'', Value = ''test''\<rparr>], Description = ''Test description''\<rparr>"

definition testFollower2 :: FollowerR where
  "testFollower2 =
     \<lparr>DID = ''did:plc:test456'', Handle = ''testuser2.bsky.social'',
      DisplayName = ''Test User 2'', Avatar = ''https://example.com/avatar2.jpg'',
      CreatedAt = 0, IndexedAt = 0,
      Viewer = \<lparr>Muted = False, BlockedBy = False, Following = []\<rparr>,
      Labels = [], Description = ''Test description 2''\<rparr>"

definition testFollower3 :: FollowerR where
  "testFollower3 =
     \<lparr>DID = ''did:plc:labels'', Handle = ''labels.bsky.social'', DisplayName = ''Labels Test'',
      Avatar = ''https://example.com/labels.jpg'', CreatedAt = 0, IndexedAt = 0,
      Viewer = \<lparr>Muted = False, BlockedBy = False, Following = []\<rparr>,
      Labels = [\<lparr>Type = ''type1'', Value = ''value1''\<rparr>, \<lparr>Type = ''type2'', Value = ''value2''\<rparr>],
      Description = ''Labels test''\<rparr>"

text \<open>The same record in the shape of the clean-start variant; a writer in which nothing
  fails; a database with an empty table.\<close>

definition basic :: "FollowerR \<Rightarrow> Follower" where
  "basic f =
     \<lparr>DID = DID f, Handle = Handle f, DisplayName = DisplayName f, Avatar = Avatar f,
      CreatedAt = CreatedAt f, IndexedAt = IndexedAt f\<rparr>"

definition no_faults :: "'f faults" where
  "no_faults =
     \<lparr>begin_fails = False, prepare_fails = False, exec_fails = (\<lambda>f. False),
      rollback_fails = False, commit_fails = False\<rparr>"

definition empty_db :: "'r database" where
  "empty_db = \<lparr>table = Map.empty, open_tx = None\<rparr>"

text \<open>
  What a batch writes when nothing fails: the map from each key of the batch to the row
  of the last record with that key.
\<close>

definition written :: "('f \<Rightarrow> string) \<Rightarrow> ('f \<Rightarrow> 'r) \<Rightarrow> 'f list \<Rightarrow> (string \<rightharpoonup> 'r)" where
  "written key val fs = map_of (rev (map (\<lambda>f. (key f, val f)) fs))"

text \<open>
  The classes of section 4.1 of the specification, as the specification words them: an
  attempt is a transport failure, a non-success status, a content-type mismatch, a decode
  failure or a success. \<open>spec_classify\<close> follows the specification, not the code; it takes
  the test for markup as a parameter, since the variants differ in it. A body that
  cannot be read counts as a transport failure.
\<close>

datatype outcome =
  TransportFailure | NonSuccessStatus | ContentTypeMismatch | DecodeFailure | Success

fun spec_classify :: "(string \<Rightarrow> bool) \<Rightarrow> 'f reply \<Rightarrow> outcome" where
  "spec_classify markup NoResponse = TransportFailure"
| "spec_classify markup (Response status ReadError) =
     (if status \<noteq> StatusOK then NonSuccessStatus else TransportFailure)"
| "spec_classify markup (Response status (Body contentType parsed)) =
     (if status \<noteq> StatusOK then NonSuccessStatus
      else if markup contentType then ContentTypeMismatch
      else if parsed = None then DecodeFailure
      else Success)"

text \<open>
  What a trace shows: the sleeps, in order, and the requests announced, each with its
  attempt number and URL.
\<close>

fun sleeps :: "event list \<Rightarrow> nat list" where
  "sleeps [] = []"
| "sleeps (Slept n # es) = n # sleeps es"
| "sleeps (e # es) = sleeps es"

fun requested :: "event list \<Rightarrow> (nat \<times> string) list" where
  "requested [] = []"
| "requested (MakingRequest attempt url # es) = (attempt, url) # requested es"
| "requested (e # es) = requested es"

text \<open>
  \<open>retried attempt url st st'\<close>: between \<open>st\<close> and \<open>st'\<close> one request to \<open>url\<close> was sent as
  attempt \<open>attempt\<close>, and the fetcher slept \<open>attempt\<close> seconds.
\<close>

definition retried :: "nat \<Rightarrow> string \<Rightarrow> run \<Rightarrow> run \<Rightarrow> bool" where
  "retried attempt url st st' \<longleftrightarrow>
     requests st' = Suc (requests st) \<and> clock st' = clock st + attempt
     \<and> sleeps (trace st') = sleeps (trace st) @ [attempt]
     \<and> requested (trace st') = requested (trace st) @ [(attempt, url)]"

text \<open>
  Environments of the examples: a server that never answers; the same with the context
  cancelled at second 11 or at second 2; a server that answers an HTML page first and the
  last (empty) page of the collection afterwards.
\<close>

definition all_down :: "'f world" where
  "all_down =
     \<lparr>reply = (\<lambda>n url. NoResponse), request_ok = (\<lambda>url. True), cancel_at = None,
      db_faults = (\<lambda>n. no_faults)\<rparr>"

definition run0 :: run where
  "run0 = \<lparr>clock = 0, requests = 0, trace = []\<rparr>"

definition html_then_page :: "'f world" where
  "html_then_page =
     \<lparr>reply = (\<lambda>n url.
         if n = 0 then Response 200 (Body ''text/html; charset=utf-8'' None)
         else Response 200 (Body ''text/plain; charset=utf-8'' (Some \<lparr>Followers = [], Cursor = []\<rparr>))),
      request_ok = (\<lambda>url. True), cancel_at = None, db_faults = (\<lambda>n. no_faults)\<rparr>"

definition down_cancel_at_11 :: "'f world" where
  "down_cancel_at_11 =
     \<lparr>reply = (\<lambda>n url. NoResponse), request_ok = (\<lambda>url. True), cancel_at = Some 11,
      db_faults = (\<lambda>n. no_faults)\<rparr>"

definition down_cancel_at_2 :: "'f world" where
  "down_cancel_at_2 =
     \<lparr>reply = (\<lambda>n url. NoResponse), request_ok = (\<lambda>url. True), cancel_at = Some 2,
      db_faults = (\<lambda>n. no_faults)\<rparr>"

text \<open>
  The vocabulary of a scripted run. \<open>page_of\<close> is the page a reply carries when it is a
  success in the sense of \<open>spec_classify\<close>; \<open>save_ok\<close> says that nothing fails while a
  batch is saved; \<open>scripted\<close> says that, from the n-th request and the k-th save on, every
  request for the page at the current cursor can be built and is answered at once with
  the next page of the list, and that page is saved without a failure; \<open>token_chain\<close> says that the list is
  not empty and that the last page, and only the last page, has the empty cursor.
\<close>

fun page_of :: "(string \<Rightarrow> bool) \<Rightarrow> 'f reply \<Rightarrow> 'f APIResponse option" where
  "page_of markup (Response status (Body contentType (Some apiResp))) =
     (if status = StatusOK \<and> \<not> markup contentType then Some apiResp else None)"
| "page_of markup r = None"

definition save_ok :: "'f faults \<Rightarrow> 'f list \<Rightarrow> bool" where
  "save_ok flt batch \<longleftrightarrow>
     \<not> begin_fails flt \<and> \<not> prepare_fails flt \<and> \<not> commit_fails flt
     \<and> list_all (\<lambda>f. \<not> exec_fails flt f) batch"

fun scripted ::
  "(string \<Rightarrow> bool) \<Rightarrow> 'f world \<Rightarrow> nat \<Rightarrow> nat \<Rightarrow> string \<Rightarrow> 'f APIResponse list \<Rightarrow> bool" where
  "scripted markup w n k c [] = True"
| "scripted markup w n k c (p # ps) =
     (page_of markup (reply w n (request_url c)) = Some p
      \<and> request_ok w (request_url c)
      \<and> save_ok (db_faults w k) (Followers p)
      \<and> scripted markup w (Suc n) (Suc k) (Cursor p) ps)"

fun token_chain :: "'f APIResponse list \<Rightarrow> bool" where
  "token_chain [] = False"
| "token_chain [p] = (Cursor p = [])"
| "token_chain (p # q # ps) = (Cursor p \<noteq> [] \<and> token_chain (q # ps))"

text \<open>
  Environments of the examples: a reply carrying a page; a server that serves three
  pages with the cursors \<^verbatim>\<open>a\<close>, \<^verbatim>\<open>b\<close> and the empty one, for both record shapes; a server
  that is down for five requests and then serves the last page; a database whose commit
  fails. Then the states the examples reach.
\<close>

definition page :: "'f list \<Rightarrow> string \<Rightarrow> 'f reply" where
  "page fs c = Response 200 (Body ''text/plain; charset=utf-8'' (Some \<lparr>Followers = fs, Cursor = c\<rparr>))"

definition three_pages :: "FollowerR world" where
  "three_pages =
     \<lparr>reply = (\<lambda>n url.
         if n = 0 \<and> url = baseURL then page [testFollower1] ''a''
         else if n = 1 \<and> url = baseURL @ ''&cursor=a'' then page [testFollower2] ''b''
         else if n = 2 \<and> url = baseURL @ ''&cursor=b'' then page [testFollower3] []
         else NoResponse),
      request_ok = (\<lambda>url. True), cancel_at = None, db_faults = (\<lambda>n. no_faults)\<rparr>"

definition three_pages_basic :: "Follower world" where
  "three_pages_basic =
     \<lparr>reply = (\<lambda>n url.
         if n = 0 \<and> url = baseURL then page [basic testFollower1] ''a''
         else if n = 1 \<and> url = baseURL @ ''&cursor=a'' then page [basic testFollower2] ''b''
         else if n = 2 \<and> url = baseURL @ ''&cursor=b'' then page [basic testFollower3] []
         else NoResponse),
      request_ok = (\<lambda>url. True), cancel_at = None, db_faults = (\<lambda>n. no_faults)\<rparr>"

definition step1_basic :: "(Follower, row) pipeline" where
  "step1_basic =
     \<lparr>net = \<lparr>clock = 0, requests = 1, trace = [MakingRequest 1 baseURL, Parsed]\<rparr>,
      store = \<lparr>table = [''did:plc:test123'' \<mapsto> row_of (basic testFollower1)], open_tx = None\<rparr>,
      cursor = ''a'', persist_calls = [[basic testFollower1]]\<rparr>"

definition step1 :: "(FollowerR, rowR) pipeline" where
  "step1 =
     \<lparr>net = \<lparr>clock = 0, requests = 1, trace = [MakingRequest 1 baseURL, Parsed]\<rparr>,
      store = \<lparr>table = [''did:plc:test123'' \<mapsto> rowR_of testFollower1], open_tx = None\<rparr>,
      cursor = ''a'', persist_calls = [[testFollower1]]\<rparr>"

definition down_then_last_page :: "FollowerR world" where
  "down_then_last_page =
     \<lparr>reply = (\<lambda>n url. if n < 5 then NoResponse else page [] []),
      request_ok = (\<lambda>url. True), cancel_at = None, db_faults = (\<lambda>n. no_faults)\<rparr>"

definition bad_disk :: "'f world" where
  "bad_disk =
     \<lparr>reply = (\<lambda>n url. page [] []),
      request_ok = (\<lambda>url. True), cancel_at = None,
      db_faults = (\<lambda>n. no_faults\<lparr>commit_fails := True\<rparr>)\<rparr>"

definition exhausted :: run where
  "exhausted =
     \<lparr>clock = 15, requests = 5,
      trace = [MakingRequest 1 baseURL, RequestFailed, Slept 1,
               MakingRequest 2 baseURL, RequestFailed, Slept 2,
               MakingRequest 3 baseURL, RequestFailed, Slept 3,
               MakingRequest 4 baseURL, RequestFailed, Slept 4,
               MakingRequest 5 baseURL, RequestFailed, Slept 5]\<rparr>"

definition got_page :: run where
  "got_page = \<lparr>clock = 0, requests = 1, trace = [MakingRequest 1 baseURL, Parsed]\<rparr>"

section \<open>Properties of the persistence writer\<close>

text \<open>
  The lemmas below describe each \<^verbatim>\<open>saveFollowers\<close> by cases on what fails; a batch
  saved without a failure adds \<open>written\<close> of the batch to the committed table.
\<close>

lemma written_Nil [simp]: "written key val [] = Map.empty"
  by (simp add: written_def)

lemma written_Cons: "t ++ written key val (f # fs) = t(key f \<mapsto> val f) ++ written key val fs"
  by (simp add: written_def map_add_upd_left)

lemma written_twice: "(t ++ written key val fs) ++ written key val fs = t ++ written key val fs"
  by (rule ext) (simp add: map_add_def split: option.split)

lemma written_snoc:
  "written key val (f # fs) k =
     (case written key val fs k of Some v \<Rightarrow> Some v | None \<Rightarrow> if k = key f then Some (val f) else None)"
  by (simp add: written_def map_add_def split: option.split)

lemma written_None: "k \<notin> key ` set fs \<Longrightarrow> written key val fs k = None"
  by (induction fs) (simp_all add: written_snoc)

lemma written_distinct:
  "distinct (map key fs) \<Longrightarrow> f \<in> set fs \<Longrightarrow> written key val fs (key f) = Some (val f)"
proof (induction fs)
  case Nil
  then show ?case by simp
next
  case (Cons g fs)
  show ?case
  proof (cases "f \<in> set fs")
    case True
    with Cons show ?thesis by (simp add: written_snoc)
  next
    case False
    with Cons.prems have "f = g" and "key g \<notin> key ` set fs" by auto
    then show ?thesis by (simp add: written_snoc written_None)
  qed
qed

lemma resume_loop_char:
  "saveFollowers_resume_loop flt fs db =
     (case find (exec_fails flt) fs of
        Some f \<Rightarrow> (Some (ExecFailedFor (DID f)), db\<lparr>open_tx := None\<rparr>)
      | None \<Rightarrow> (None, db\<lparr>open_tx := map_option (\<lambda>t. t ++ written DID rowR_of fs) (open_tx db)\<rparr>))"
proof (induction fs arbitrary: db)
  case Nil
  show ?case by (simp add: option.map_ident)
next
  case (Cons f fs)
  show ?case
  proof (cases "exec_fails flt f")
    case True
    then show ?thesis by (simp add: tx_Rollback_def)
  next
    case False
    then show ?thesis
      by (simp add: Cons.IH tx_Exec_def option.map_comp comp_def written_Cons tx_Rollback_def
            split: option.split)
  qed
qed

lemma saveFollowers_resume_char:
  "saveFollowers_resume flt db fs =
     (if begin_fails flt then (Some BeginFailed, db)
      else if prepare_fails flt then (Some PrepareFailed, db\<lparr>open_tx := None\<rparr>)
      else case find (exec_fails flt) fs of
        Some f \<Rightarrow> (Some (ExecFailedFor (DID f)), db\<lparr>open_tx := None\<rparr>)
      | None \<Rightarrow>
          if commit_fails flt then (Some CommitFailed, db\<lparr>open_tx := None\<rparr>)
          else (None, db\<lparr>table := table db ++ written DID rowR_of fs, open_tx := None\<rparr>))"
  by (simp add: saveFollowers_resume_def resume_loop_char db_Begin_def tx_Rollback_def
        tx_Commit_def Let_def split: option.split)

lemma clean_loop_char:
  "saveFollowers_clean_loop flt fs db =
     (case find (exec_fails flt) fs of
        Some f \<Rightarrow>
          (Some (if rollback_fails flt then ExecFailedRollbackFailed else ExecFailed),
           db\<lparr>open_tx := None\<rparr>)
      | None \<Rightarrow> (None, db\<lparr>open_tx := map_option (\<lambda>t. t ++ written DID row_of fs) (open_tx db)\<rparr>))"
proof (induction fs arbitrary: db)
  case Nil
  show ?case by (simp add: option.map_ident)
next
  case (Cons f fs)
  show ?case
  proof (cases "exec_fails flt f")
    case True
    then show ?thesis by (simp add: tx_Rollback_def)
  next
    case False
    then show ?thesis
      by (simp add: Cons.IH tx_Exec_def option.map_comp comp_def written_Cons tx_Rollback_def
            split: option.split)
  qed
qed

lemma saveFollowers_clean_char:
  "saveFollowers_clean flt db fs =
     (if begin_fails flt then (Some BeginFailed, db)
      else if prepare_fails flt then
        (Some (if rollback_fails flt then PrepareFailedRollbackFailed else PrepareFailed),
         db\<lparr>open_tx := None\<rparr>)
      else case find (exec_fails flt) fs of
        Some f \<Rightarrow>
          (Some (if rollback_fails flt then ExecFailedRollbackFailed else ExecFailed),
           db\<lparr>open_tx := None\<rparr>)
      | None \<Rightarrow>
          if commit_fails flt then (Some CommitFailed, db\<lparr>open_tx := None\<rparr>)
          else (None, db\<lparr>table := table db ++ written DID row_of fs, open_tx := None\<rparr>))"
  by (simp add: saveFollowers_clean_def clean_loop_char db_Begin_def tx_Rollback_def
        tx_Commit_def Let_def split: option.split)


lemma basic_loop_error:
  "fst (saveFollowers_basic_loop flt fs db) =
     (if \<exists>f\<in>set fs. exec_fails flt f then Some ExecFailed else None)"
  by (induction fs arbitrary: db) simp_all

lemma basic_loop_open:
  "open_tx db \<noteq> None \<Longrightarrow> open_tx (snd (saveFollowers_basic_loop flt fs db)) \<noteq> None"
  by (induction fs arbitrary: db) (simp_all add: tx_Exec_def)

text \<open>
  \<^verbatim>\<open>main.go\<close> returns from a failed \<^verbatim>\<open>Exec\<close> without \<^verbatim>\<open>tx.Rollback()\<close>: the transaction is
  still open when \<^verbatim>\<open>saveFollowers\<close> returns (and \<^verbatim>\<open>main\<close> then exits).
\<close>

lemma saveFollowers_basic_leaves_tx_open:
  assumes "\<not> begin_fails flt" and "\<not> prepare_fails flt" and "\<exists>f\<in>set B. exec_fails flt f"
  shows "open_tx (snd (saveFollowers_basic flt db B)) \<noteq> None"
proof -
  obtain e d where l: "saveFollowers_basic_loop flt B (db_Begin db) = (e, d)"
    by (cases "saveFollowers_basic_loop flt B (db_Begin db)")
  have e: "e = Some ExecFailed"
    using basic_loop_error [of flt B "db_Begin db"] assms(3) l by simp
  have "open_tx d \<noteq> None"
    using basic_loop_open [of "db_Begin db" flt B] l by (simp add: db_Begin_def)
  then show ?thesis
    using assms(1,2) l [unfolded db_Begin_def]
    by (simp add: saveFollowers_basic_def Let_def e db_Begin_def)
qed


text \<open>
  C1. \<^verbatim>\<open>saveFollowers\<close> is idempotent: called a second time with the same batch, in
  the same environment, on the database the first call left, it returns what the first
  call returned and leaves the database as the first call left it, the committed table
  (hence its row count and every field of every row) included. Stated for the resume
  variant and for the clean-start variant.
\<close>

theorem persist_idempotent:
  "saveFollowers_resume flt (snd (saveFollowers_resume flt db B)) B
     = saveFollowers_resume flt db B
   \<and> saveFollowers_clean flt' (snd (saveFollowers_clean flt' db' B')) B'
     = saveFollowers_clean flt' db' B'"
  by (simp add: saveFollowers_resume_char saveFollowers_clean_char written_twice
        split: option.split)




text \<open>
  C8. Label serialization: the label list is stored as the comma-separated join, in the
  order of the list, of \<^verbatim>\<open>type:value\<close>. No label gives the empty string, the list
  \<^verbatim>\<open>[(type1,value1),(type2,value2)]\<close> gives \<^verbatim>\<open>type1:value1,type2:value2\<close>, and after a
  successful \<^verbatim>\<open>saveFollowers\<close> of a batch of distinct \<^verbatim>\<open>did\<close>s the column
  \<^verbatim>\<open>labels\<close> of every record of the batch holds that string.
\<close>

theorem label_serialization:
  "labelStr [] = []
   \<and> labelStr [\<lparr>Type = type1, Value = value1\<rparr>, \<lparr>Type = type2, Value = value2\<rparr>]
       = type1 @ '':'' @ value1 @ '','' @ type2 @ '':'' @ value2
   \<and> labelStr [l] = Type l @ '':'' @ Value l
   \<and> labelStr (l # l' # ls) = Type l @ '':'' @ Value l @ '','' @ labelStr (l' # ls)
   \<and> (saveFollowers_resume flt db B = (None, db') \<longrightarrow> distinct (map DID B) \<longrightarrow>
        (\<forall>f\<in>set B. map_option labels (table db' (DID f)) = Some (labelStr (Labels f))))"
proof (intro conjI impI ballI)
  fix f
  assume s: "saveFollowers_resume flt db B = (None, db')" and d: "distinct (map DID B)"
    and f: "f \<in> set B"
  from s have "table db' = table db ++ written DID rowR_of B"
    by (auto simp: saveFollowers_resume_char split: if_splits option.splits)
  then show "map_option labels (table db' (DID f)) = Some (labelStr (Labels f))"
    using written_distinct [OF d f, of rowR_of] by (simp add: map_add_def rowR_of_def)
qed (simp_all add: labelStr_def)


theorem label_serialization_witness:
  "saveFollowers_resume no_faults empty_db [testFollower1, testFollower3]
     = (None, \<lparr>table = [''did:plc:test123'' \<mapsto> rowR_of testFollower1,
                         ''did:plc:labels'' \<mapsto> rowR_of testFollower3], open_tx = None\<rparr>)
   \<and> distinct (map DID [testFollower1, testFollower3])
   \<and> map_option labels
        (([''did:plc:test123'' \<mapsto> rowR_of testFollower1,
           ''did:plc:labels'' \<mapsto> rowR_of testFollower3]) ''did:plc:labels'')
       = Some ''type1:value1,type2:value2''"
proof -
  have s: "saveFollowers_resume no_faults empty_db [testFollower1, testFollower3]
     = (None, \<lparr>table = [''did:plc:test123'' \<mapsto> rowR_of testFollower1,
                         ''did:plc:labels'' \<mapsto> rowR_of testFollower3], open_tx = None\<rparr>)"
    by (simp add: saveFollowers_resume_def no_faults_def empty_db_def db_Begin_def tx_Exec_def
          tx_Commit_def testFollower1_def testFollower3_def)
  have d: "distinct (map DID [testFollower1, testFollower3])"
    by (simp add: testFollower1_def testFollower3_def)
  have "\<forall>f\<in>set [testFollower1, testFollower3].
          map_option labels
            (table \<lparr>table = [''did:plc:test123'' \<mapsto> rowR_of testFollower1,
                         ''did:plc:labels'' \<mapsto> rowR_of testFollower3], open_tx = None\<rparr> (DID f))
          = Some (labelStr (Labels f))"
    using label_serialization
        [where flt = no_faults and db = empty_db and B = "[testFollower1, testFollower3]"] s d
    by blast
  then show ?thesis
    using s d by (simp add: testFollower3_def labelStr_def)
qed

section \<open>Properties of the page fetcher\<close>

text \<open>
  The retry loops are unfolded by hand, one attempt at a time. An attempt that is not a
  success sends one request, sleeps \<open>attempt\<close> seconds and goes on with the next attempt.
\<close>

declare fetchFollowers_p0_loop.simps [simp del]

declare fetchFollowers_resume_loop.simps [simp del]

declare fetchFollowers_clean_loop.simps [simp del]

declare fetchFollowers_resume_ctx_loop.simps [simp del]

lemma sleeps_append: "sleeps (xs @ ys) = sleeps xs @ sleeps ys"
  by (induction xs rule: sleeps.induct) simp_all

lemma requested_append: "requested (xs @ ys) = requested xs @ requested ys"
  by (induction xs rule: requested.induct) simp_all

lemma resume_attempt_fails:
  assumes "attempt \<le> maxRetries"
    and "spec_classify (\<lambda>ct. ct = ''text/html; charset=utf-8'') (reply w (requests st) url) \<noteq> Success"
  shows "\<exists>st2. fetchFollowers_resume_loop w c url attempt st
                 = fetchFollowers_resume_loop w c url (Suc attempt) st2
               \<and> retried attempt url st st2"
proof (cases "reply w (requests st) url")
  case NoResponse
  then show ?thesis using assms(1)
    by (subst fetchFollowers_resume_loop.simps)
       (auto simp: http_Get_def logs_def time_Sleep_def retried_def sleeps_append requested_append)
next
  case (Response status body)
  then show ?thesis using assms
    by (subst fetchFollowers_resume_loop.simps)
       (cases body;
        auto simp: http_Get_def logs_def time_Sleep_def retried_def sleeps_append requested_append split: if_splits)
qed

lemma clean_attempt_fails:
  assumes "attempt \<le> maxRetries"
    and "spec_classify (prefix ''text/html'') (reply w (requests st) url) \<noteq> Success"
    and "request_ok w url" and "\<not> ctx_Err w (clock st)"
  shows "\<exists>st2. fetchFollowers_clean_loop w c url attempt st
                 = fetchFollowers_clean_loop w c url (Suc attempt) st2
               \<and> retried attempt url st st2"
proof (cases "reply w (requests st) url")
  case NoResponse
  then show ?thesis using assms
    by (subst fetchFollowers_clean_loop.simps)
       (auto simp: http_Get_def logs_def time_Sleep_def retried_def sleeps_append requested_append)
next
  case (Response status body)
  then show ?thesis using assms
    by (subst fetchFollowers_clean_loop.simps)
       (cases body;
        auto simp: http_Get_def logs_def time_Sleep_def retried_def sleeps_append requested_append split: if_splits)
qed

lemma resume_exhausted:
  assumes "\<forall>n. spec_classify (\<lambda>ct. ct = ''text/html; charset=utf-8'') (reply w n url) \<noteq> Success"
  shows "\<exists>st'. fetchFollowers_resume_loop w c url attempt st = (Inl (ExceededMaxRetries c), st')
           \<and> requests st' = requests st + (Suc maxRetries - attempt)
           \<and> clock st' = clock st + sum_list [attempt..<Suc maxRetries]
           \<and> sleeps (trace st') = sleeps (trace st) @ [attempt..<Suc maxRetries]
           \<and> requested (trace st')
               = requested (trace st) @ map (\<lambda>a. (a, url)) [attempt..<Suc maxRetries]"
proof (induction "Suc maxRetries - attempt" arbitrary: attempt st)
  case 0
  then have "\<not> attempt \<le> maxRetries" by simp
  then show ?case by (subst fetchFollowers_resume_loop.simps) simp
next
  case (Suc d)
  then have le: "attempt \<le> maxRetries" and d: "d = Suc maxRetries - Suc attempt" by simp_all
  from resume_attempt_fails [OF le, of w st url c] assms
  obtain st2 where step: "fetchFollowers_resume_loop w c url attempt st
                 = fetchFollowers_resume_loop w c url (Suc attempt) st2"
    and r: "retried attempt url st st2" by blast
  from Suc.hyps(1) [OF d, of st2] obtain st' where
    "fetchFollowers_resume_loop w c url (Suc attempt) st2 = (Inl (ExceededMaxRetries c), st')"
    "requests st' = requests st2 + (Suc maxRetries - Suc attempt)"
    "clock st' = clock st2 + sum_list [Suc attempt..<Suc maxRetries]"
    "sleeps (trace st') = sleeps (trace st2) @ [Suc attempt..<Suc maxRetries]"
    "requested (trace st')
       = requested (trace st2) @ map (\<lambda>a. (a, url)) [Suc attempt..<Suc maxRetries]"
    by blast
  moreover have "[attempt..<Suc maxRetries] = attempt # [Suc attempt..<Suc maxRetries]"
    using le by (simp add: upt_conv_Cons)
  ultimately show ?case
    using step r le by (simp add: retried_def)
qed

lemma ctx_Err_mono: "\<not> ctx_Err w t \<Longrightarrow> s \<le> t \<Longrightarrow> \<not> ctx_Err w s"
  by (auto simp: ctx_Err_def split: option.splits)

lemma clean_exhausted:
  assumes "\<forall>n. spec_classify (prefix ''text/html'') (reply w n url) \<noteq> Success"
    and "request_ok w url"
  shows "(attempt \<le> maxRetries \<Longrightarrow> \<not> ctx_Err w (clock st + sum_list [attempt..<maxRetries])) \<Longrightarrow>
         \<exists>st'. fetchFollowers_clean_loop w c url attempt st = (Inl (ExceededMaxRetries c), st')
           \<and> requests st' = requests st + (Suc maxRetries - attempt)
           \<and> clock st' = clock st + sum_list [attempt..<Suc maxRetries]
           \<and> sleeps (trace st') = sleeps (trace st) @ [attempt..<Suc maxRetries]
           \<and> requested (trace st')
               = requested (trace st) @ map (\<lambda>a. (a, url)) [attempt..<Suc maxRetries]"
proof (induction "Suc maxRetries - attempt" arbitrary: attempt st)
  case 0
  then have "\<not> attempt \<le> maxRetries" by simp
  then show ?case by (subst fetchFollowers_clean_loop.simps) simp
next
  case (Suc d)
  then have le: "attempt \<le> maxRetries" and d: "d = Suc maxRetries - Suc attempt" by simp_all
  have now: "\<not> ctx_Err w (clock st)"
    by (rule ctx_Err_mono [OF Suc.prems [OF le]]) simp
  from clean_attempt_fails [OF le _ assms(2) now, of c] assms(1)
  obtain st2 where step: "fetchFollowers_clean_loop w c url attempt st
                 = fetchFollowers_clean_loop w c url (Suc attempt) st2"
    and r: "retried attempt url st st2" by blast
  have later: "\<not> ctx_Err w (clock st2 + sum_list [Suc attempt..<maxRetries])"
    if "Suc attempt \<le> maxRetries"
  proof -
    from that have "[attempt..<maxRetries] = attempt # [Suc attempt..<maxRetries]"
      by (simp add: upt_conv_Cons)
    with Suc.prems [OF le] r show ?thesis by (simp add: retried_def add.assoc)
  qed
  from Suc.hyps(1) [OF d later] obtain st' where
    "fetchFollowers_clean_loop w c url (Suc attempt) st2 = (Inl (ExceededMaxRetries c), st')"
    "requests st' = requests st2 + (Suc maxRetries - Suc attempt)"
    "clock st' = clock st2 + sum_list [Suc attempt..<Suc maxRetries]"
    "sleeps (trace st') = sleeps (trace st2) @ [Suc attempt..<Suc maxRetries]"
    "requested (trace st')
       = requested (trace st2) @ map (\<lambda>a. (a, url)) [Suc attempt..<Suc maxRetries]"
    by blast
  moreover have "[attempt..<Suc maxRetries] = attempt # [Suc attempt..<Suc maxRetries]"
    using le by (simp add: upt_conv_Cons)
  ultimately show ?case
    using step r le by (simp add: retried_def)
qed

lemma upt_attempts: "[1..<Suc maxRetries] = [1, 2, 3, 4, 5]" "[1..<maxRetries] = [1, 2, 3, 4]"
  by (simp_all add: maxRetries_def upt_rec)

text \<open>
  C3. Retry bound: when every attempt fails (transport failure, non-success status,
  content-type mismatch or decode failure), \<^verbatim>\<open>fetchFollowers\<close> sends exactly five requests,
  as attempts 1 to 5 to the URL of the cursor, sleeps 1, 2, 3, 4 and 5 seconds after them
  (15 seconds in all) and returns \<^verbatim>\<open>exceeded max retries for cursor\<close> with the cursor, never
  a page. In \<^verbatim>\<open>unnamed/part_001\<close> this holds for every cursor and every state. The
  clean-start variant has a context: there it holds when the request can be built and the
  context is not cancelled before the fifth attempt starts, that is, in the first ten
  seconds.
\<close>

theorem retry_bound:
  "((\<forall>n. spec_classify (\<lambda>ct. ct = ''text/html; charset=utf-8'') (reply w n (request_url c))
          \<noteq> Success) \<longrightarrow>
      (\<exists>st'. fetchFollowers_resume w c st = (Inl (ExceededMaxRetries c), st')
          \<and> requests st' = requests st + 5
          \<and> requested (trace st')
              = requested (trace st) @ map (\<lambda>a. (a, request_url c)) [1, 2, 3, 4, 5]
          \<and> sleeps (trace st') = sleeps (trace st) @ [1, 2, 3, 4, 5]
          \<and> clock st' = clock st + 15))
   \<and> ((\<forall>n. spec_classify (prefix ''text/html'') (reply w n (request_url c)) \<noteq> Success) \<longrightarrow>
      request_ok w (request_url c) \<longrightarrow> \<not> ctx_Err w (clock st + 10) \<longrightarrow>
      (\<exists>st'. fetchFollowers_clean w c st = (Inl (ExceededMaxRetries c), st')
          \<and> requests st' = requests st + 5
          \<and> requested (trace st')
              = requested (trace st) @ map (\<lambda>a. (a, request_url c)) [1, 2, 3, 4, 5]
          \<and> sleeps (trace st') = sleeps (trace st) @ [1, 2, 3, 4, 5]
          \<and> clock st' = clock st + 15))"
proof (intro conjI impI)
  assume "\<forall>n. spec_classify (\<lambda>ct. ct = ''text/html; charset=utf-8'') (reply w n (request_url c))
          \<noteq> Success"
  from resume_exhausted [OF this, of c 1 st, unfolded upt_attempts]
  show "\<exists>st'. fetchFollowers_resume w c st = (Inl (ExceededMaxRetries c), st')
          \<and> requests st' = requests st + 5
          \<and> requested (trace st')
              = requested (trace st) @ map (\<lambda>a. (a, request_url c)) [1, 2, 3, 4, 5]
          \<and> sleeps (trace st') = sleeps (trace st) @ [1, 2, 3, 4, 5]
          \<and> clock st' = clock st + 15"
    by (auto simp: fetchFollowers_resume_def maxRetries_def)
next
  assume a: "\<forall>n. spec_classify (prefix ''text/html'') (reply w n (request_url c)) \<noteq> Success"
    and ok: "request_ok w (request_url c)" and nc: "\<not> ctx_Err w (clock st + 10)"
  have "\<not> ctx_Err w (clock st + sum_list [1..<maxRetries])"
    unfolding upt_attempts using nc by simp
  from clean_exhausted [OF a ok this, of c, unfolded upt_attempts]
  show "\<exists>st'. fetchFollowers_clean w c st = (Inl (ExceededMaxRetries c), st')
          \<and> requests st' = requests st + 5
          \<and> requested (trace st')
              = requested (trace st) @ map (\<lambda>a. (a, request_url c)) [1, 2, 3, 4, 5]
          \<and> sleeps (trace st') = sleeps (trace st) @ [1, 2, 3, 4, 5]
          \<and> clock st' = clock st + 15"
    by (auto simp: fetchFollowers_clean_def maxRetries_def)
qed

theorem retry_bound_witness:
  "(\<forall>n. spec_classify (\<lambda>ct. ct = ''text/html; charset=utf-8'')
          (reply (all_down :: Follower world) n (request_url ''abc'')) \<noteq> Success)
   \<and> (\<forall>n. spec_classify (prefix ''text/html'')
          (reply (all_down :: Follower world) n (request_url ''abc'')) \<noteq> Success)
   \<and> request_ok (all_down :: Follower world) (request_url ''abc'')
   \<and> \<not> ctx_Err (all_down :: Follower world) (clock run0 + 10)
   \<and> (\<exists>st'. fetchFollowers_resume (all_down :: Follower world) ''abc'' run0
               = (Inl (ExceededMaxRetries ''abc''), st')
          \<and> requests st' = 5 \<and> sleeps (trace st') = [1, 2, 3, 4, 5] \<and> clock st' = 15)
   \<and> (\<exists>st'. fetchFollowers_clean (all_down :: Follower world) ''abc'' run0
               = (Inl (ExceededMaxRetries ''abc''), st')
          \<and> requests st' = 5 \<and> sleeps (trace st') = [1, 2, 3, 4, 5] \<and> clock st' = 15)"
  using retry_bound [of "all_down :: Follower world" "''abc''" run0]
  by (auto simp: all_down_def run0_def ctx_Err_def)

lemma spec_classify_Success:
  assumes "spec_classify markup r = Success"
  obtains contentType apiResp where "r = Response StatusOK (Body contentType (Some apiResp))"
    and "\<not> markup contentType"
proof (cases r)
  case NoResponse
  with assms show ?thesis by simp
next
  case (Response status body)
  with assms that show ?thesis
    by (cases body) (auto split: if_splits)
qed

lemma resume_attempt:
  assumes "attempt \<le> maxRetries"
  shows "(\<exists>st2. fetchFollowers_resume_loop w c url attempt st
                 = fetchFollowers_resume_loop w c url (Suc attempt) st2
               \<and> retried attempt url st st2)
         \<or> (\<exists>r st'. fetchFollowers_resume_loop w c url attempt st = (r, st')
               \<and> requested (trace st') = requested (trace st) @ [(attempt, url)])"
proof (cases "spec_classify (\<lambda>ct. ct = ''text/html; charset=utf-8'') (reply w (requests st) url)
                = Success")
  case False
  from resume_attempt_fails [OF assms False] show ?thesis by blast
next
  case True
  then obtain ct apiResp where "reply w (requests st) url = Response StatusOK (Body ct (Some apiResp))"
    and "ct \<noteq> ''text/html; charset=utf-8''"
    by (rule spec_classify_Success)
  then show ?thesis using assms
    by (subst fetchFollowers_resume_loop.simps)
       (simp add: http_Get_def logs_def requested_append)
qed

lemma resume_urls:
  "\<exists>as. requested (trace (snd (fetchFollowers_resume_loop w c url attempt st)))
          = requested (trace st) @ map (\<lambda>a. (a, url)) as"
proof (induction "Suc maxRetries - attempt" arbitrary: attempt st)
  case 0
  then have "\<not> attempt \<le> maxRetries" by simp
  then have "requested (trace (snd (fetchFollowers_resume_loop w c url attempt st)))
          = requested (trace st) @ map (\<lambda>a. (a, url)) []"
    by (subst fetchFollowers_resume_loop.simps) simp
  then show ?case by blast
next
  case (Suc d)
  then have le: "attempt \<le> maxRetries" and d: "d = Suc maxRetries - Suc attempt" by simp_all
  from resume_attempt [OF le, of w c url st] show ?case
  proof (elim disjE exE conjE)
    fix st2
    assume step: "fetchFollowers_resume_loop w c url attempt st
                 = fetchFollowers_resume_loop w c url (Suc attempt) st2"
      and r: "retried attempt url st st2"
    from Suc.hyps(1) [OF d, of st2] obtain as where
      "requested (trace (snd (fetchFollowers_resume_loop w c url (Suc attempt) st2)))
          = requested (trace st2) @ map (\<lambda>a. (a, url)) as" ..
    with step r have "requested (trace (snd (fetchFollowers_resume_loop w c url attempt st)))
          = requested (trace st) @ map (\<lambda>a. (a, url)) (attempt # as)"
      by (simp add: retried_def)
    then show ?thesis by blast
  next
    fix r st'
    assume "fetchFollowers_resume_loop w c url attempt st = (r, st')"
      and "requested (trace st') = requested (trace st) @ [(attempt, url)]"
    then have "requested (trace (snd (fetchFollowers_resume_loop w c url attempt st)))
          = requested (trace st) @ map (\<lambda>a. (a, url)) [attempt]"
      by simp
    then show ?thesis by blast
  qed
qed

lemma clean_attempt:
  assumes "attempt \<le> maxRetries"
  shows "(\<exists>st2. fetchFollowers_clean_loop w c url attempt st
                 = fetchFollowers_clean_loop w c url (Suc attempt) st2
               \<and> retried attempt url st st2)
         \<or> (\<exists>r st'. fetchFollowers_clean_loop w c url attempt st = (r, st')
               \<and> (requested (trace st') = requested (trace st) @ [(attempt, url)]
                  \<or> requested (trace st') = requested (trace st)))"
proof (cases "ctx_Err w (clock st) \<or> \<not> request_ok w url")
  case True
  then show ?thesis using assms
    by (subst fetchFollowers_clean_loop.simps) (auto simp: logs_def requested_append)
next
  case ok: False
  show ?thesis
  proof (cases "spec_classify (prefix ''text/html'') (reply w (requests st) url) = Success")
    case False
    from clean_attempt_fails [OF assms False] ok show ?thesis by blast
  next
    case True
    then obtain ct apiResp where
      "reply w (requests st) url = Response StatusOK (Body ct (Some apiResp))"
      and "\<not> prefix ''text/html'' ct"
      by (rule spec_classify_Success)
    then show ?thesis using assms ok
      by (subst fetchFollowers_clean_loop.simps)
         (simp add: http_Get_def logs_def requested_append)
  qed
qed

lemma clean_urls:
  "\<exists>as. requested (trace (snd (fetchFollowers_clean_loop w c url attempt st)))
          = requested (trace st) @ map (\<lambda>a. (a, url)) as"
proof (induction "Suc maxRetries - attempt" arbitrary: attempt st)
  case 0
  then have "\<not> attempt \<le> maxRetries" by simp
  then have "requested (trace (snd (fetchFollowers_clean_loop w c url attempt st)))
          = requested (trace st) @ map (\<lambda>a. (a, url)) []"
    by (subst fetchFollowers_clean_loop.simps) simp
  then show ?case by blast
next
  case (Suc d)
  then have le: "attempt \<le> maxRetries" and d: "d = Suc maxRetries - Suc attempt" by simp_all
  from clean_attempt [OF le, of w c url st] show ?case
  proof (elim disjE exE conjE)
    fix st2
    assume step: "fetchFollowers_clean_loop w c url attempt st
                 = fetchFollowers_clean_loop w c url (Suc attempt) st2"
      and r: "retried attempt url st st2"
    from Suc.hyps(1) [OF d, of st2] obtain as where
      "requested (trace (snd (fetchFollowers_clean_loop w c url (Suc attempt) st2)))
          = requested (trace st2) @ map (\<lambda>a. (a, url)) as" ..
    with step r have "requested (trace (snd (fetchFollowers_clean_loop w c url attempt st)))
          = requested (trace st) @ map (\<lambda>a. (a, url)) (attempt # as)"
      by (simp add: retried_def)
    then show ?thesis by blast
  next
    fix r st'
    assume "fetchFollowers_clean_loop w c url attempt st = (r, st')"
      and "requested (trace st') = requested (trace st) @ [(attempt, url)]"
    then have "requested (trace (snd (fetchFollowers_clean_loop w c url attempt st)))
          = requested (trace st) @ map (\<lambda>a. (a, url)) [attempt]"
      by simp
    then show ?thesis by blast
  next
    fix r st'
    assume "fetchFollowers_clean_loop w c url attempt st = (r, st')"
      and "requested (trace st') = requested (trace st)"
    then have "requested (trace (snd (fetchFollowers_clean_loop w c url attempt st)))
          = requested (trace st) @ map (\<lambda>a. (a, url)) []"
      by simp
    then show ?thesis by blast
  qed
qed

text \<open>
  C10. The URL of a page: for the empty cursor the base URL, otherwise the base URL,
  then \<^verbatim>\<open>&cursor=\<close>, then the cursor as it is, with no escaping: a cursor \<^verbatim>\<open>a&limit=1#x\<close>
  gives a URL that ends in \<^verbatim>\<open>&cursor=a&limit=1#x\<close>. Every request that
  \<^verbatim>\<open>fetchFollowers\<close> announces goes to that URL.
\<close>

theorem request_url_verbatim:
  "request_url [] = baseURL
   \<and> (t \<noteq> [] \<longrightarrow> request_url t = baseURL @ ''&cursor='' @ t)
   \<and> request_url ''a&limit=1#x'' = baseURL @ ''&cursor=a&limit=1#x''
   \<and> (\<exists>as. requested (trace (snd (fetchFollowers_clean w t st)))
              = requested (trace st) @ map (\<lambda>a. (a, request_url t)) as)
   \<and> (\<exists>as. requested (trace (snd (fetchFollowers_resume w t st)))
              = requested (trace st) @ map (\<lambda>a. (a, request_url t)) as)"
  using clean_urls [of w t "request_url t" 1 st] resume_urls [of w t "request_url t" 1 st]
  by (simp add: request_url_def fetchFollowers_clean_def fetchFollowers_resume_def)

theorem request_url_verbatim_witness:
  "request_url ''abc'' = baseURL @ ''&cursor=abc''
   \<and> (\<exists>as. requested (trace (snd (fetchFollowers_clean (all_down :: Follower world) ''abc'' run0)))
              = requested (trace run0) @ map (\<lambda>a. (a, request_url ''abc'')) as)"
  using request_url_verbatim [of "''abc''" "all_down :: Follower world" run0]
  by auto

text \<open>
  A body sniffed as \<^verbatim>\<open>text/html; charset=utf-8\<close>, the only HTML type
  \<^verbatim>\<open>http.DetectContentType\<close> returns, in the clean-start variant: the attempt logs
  \<^verbatim>\<open>Received HTML response\<close>, sleeps and goes on, whatever the body would decode to.
\<close>

lemma html_reply_clean:
  assumes "attempt \<le> maxRetries" and "\<not> ctx_Err w (clock st)" and "request_ok w url"
    and "reply w (requests st) url = Response StatusOK (Body ''text/html; charset=utf-8'' parsed)"
  shows "fetchFollowers_clean_loop w c url attempt st
           = fetchFollowers_clean_loop w c url (Suc attempt)
               (time_Sleep attempt
                  (logs ReceivedHTML (snd (http_Get w url (logs (MakingRequest attempt url) st)))))"
  using assms
  by (subst fetchFollowers_clean_loop.simps) (simp add: http_Get_def logs_def)

text \<open>
  The same body in \<^verbatim>\<open>unnamed/part_000\<close>: the comparison with \<^verbatim>\<open>"text/html"\<close> does not
  hold, so the body goes to \<^verbatim>\<open>json.Unmarshal\<close>.
\<close>

lemma html_reply_p0:
  assumes "attempt \<le> maxRetries"
    and "reply w (requests st) url = Response status (Body ''text/html; charset=utf-8'' parsed)"
  shows "fetchFollowers_p0_loop w c url attempt st
           = (case parsed of
                None \<Rightarrow> fetchFollowers_p0_loop w c url (Suc attempt)
                  (time_Sleep attempt
                     (logs UnmarshalFailed
                        (snd (http_Get w url (logs (MakingRequest attempt url) st)))))
              | Some apiResp \<Rightarrow>
                  (Inr apiResp,
                   logs Parsed (snd (http_Get w url (logs (MakingRequest attempt url) st)))))"
  using assms
  by (subst fetchFollowers_p0_loop.simps) (simp add: http_Get_def logs_def split: option.split)

text \<open>
  C9. Content-type classification, on a server that answers an HTML page and then the
  last page: \<^verbatim>\<open>unnamed/part_000\<close> logs the first attempt as a JSON decode failure, the
  clean-start variant logs it as an HTML response. Both sleep one second and fetch again.
\<close>

theorem html_reply_part_000:
  "trace (snd (fetchFollowers_p0 (html_then_page :: Follower world) [] run0))
     = [MakingRequest 1 baseURL, UnmarshalFailed, Slept 1, MakingRequest 2 baseURL, Parsed]
   \<and> trace (snd (fetchFollowers_clean (html_then_page :: Follower world) [] run0))
     = [MakingRequest 1 baseURL, ReceivedHTML, Slept 1, MakingRequest 2 baseURL, Parsed]"
  by (simp add: fetchFollowers_p0_def fetchFollowers_clean_def html_then_page_def run0_def
        request_url_def fetchFollowers_p0_loop.simps fetchFollowers_clean_loop.simps
        maxRetries_def StatusOK_def http_Get_def logs_def time_Sleep_def ctx_Err_def)

text \<open>
  C4, as stated, fails: the server never answers and the context is cancelled at second
  11, one second into the sleep after the fifth attempt (seconds 10 to 15). The fetch
  returns at second 15, four seconds after the signal, and what it returns is
  \<^verbatim>\<open>exceeded max retries\<close>, not the error of the context.
\<close>

theorem cancellation_not_prompt_counterexample:
  "cancel_at (down_cancel_at_11 :: Follower world) = Some 11
   \<and> fetchFollowers_clean (down_cancel_at_11 :: Follower world) [] run0
       = (Inl (ExceededMaxRetries []),
          \<lparr>clock = 15, requests = 5,
           trace = [MakingRequest 1 baseURL, RequestFailed, Slept 1,
                    MakingRequest 2 baseURL, RequestFailed, Slept 2,
                    MakingRequest 3 baseURL, RequestFailed, Slept 3,
                    MakingRequest 4 baseURL, RequestFailed, Slept 4,
                    MakingRequest 5 baseURL, RequestFailed, Slept 5]\<rparr>)"
  by (simp add: fetchFollowers_clean_def down_cancel_at_11_def run0_def
        request_url_def fetchFollowers_clean_loop.simps
        maxRetries_def StatusOK_def http_Get_def logs_def time_Sleep_def ctx_Err_def)

text \<open>
  C4, amended. \<^verbatim>\<open>fetchFollowers\<close> looks at the context at the head of each attempt only.
  An attempt that starts with the context cancelled sends nothing, waits for nothing and
  returns the error of the context. When the context is cancelled during the sleep that
  follows a failed attempt, the sleep of \<open>attempt\<close> seconds runs to its end and no further
  request is sent; then the fetch returns the error of the context, or, if the failed
  attempt was the last one, \<^verbatim>\<open>exceeded max retries\<close>.
\<close>

theorem cancellation_at_attempt_head:
  "(attempt \<le> maxRetries \<longrightarrow> ctx_Err w (clock st) \<longrightarrow>
      fetchFollowers_clean_loop w c url attempt st = (Inl ContextCanceled, st))
   \<and> (attempt \<le> maxRetries \<longrightarrow> \<not> ctx_Err w (clock st) \<longrightarrow> request_ok w url \<longrightarrow>
      spec_classify (prefix ''text/html'') (reply w (requests st) url) \<noteq> Success \<longrightarrow>
      ctx_Err w (clock st + attempt) \<longrightarrow>
      (\<exists>st'. fetchFollowers_clean_loop w c url attempt st
             = (if attempt < maxRetries then Inl ContextCanceled
                else Inl (ExceededMaxRetries c), st')
        \<and> requests st' = Suc (requests st)
        \<and> clock st' = clock st + attempt
        \<and> sleeps (trace st') = sleeps (trace st) @ [attempt]))"
proof (intro conjI impI)
  assume "attempt \<le> maxRetries" "ctx_Err w (clock st)"
  then show "fetchFollowers_clean_loop w c url attempt st = (Inl ContextCanceled, st)"
    by (subst fetchFollowers_clean_loop.simps) simp
next
  assume le: "attempt \<le> maxRetries" and nc: "\<not> ctx_Err w (clock st)"
    and ok: "request_ok w url"
    and f: "spec_classify (prefix ''text/html'') (reply w (requests st) url) \<noteq> Success"
    and c: "ctx_Err w (clock st + attempt)"
  from clean_attempt_fails [OF le f ok nc, of c]
  obtain st2 where step: "fetchFollowers_clean_loop w c url attempt st
                 = fetchFollowers_clean_loop w c url (Suc attempt) st2"
    and r: "retried attempt url st st2" by blast
  have "fetchFollowers_clean_loop w c url (Suc attempt) st2
          = (if attempt < maxRetries then Inl ContextCanceled
             else Inl (ExceededMaxRetries c), st2)"
    using c r le by (subst fetchFollowers_clean_loop.simps) (auto simp: retried_def)
  with step r
  show "\<exists>st'. fetchFollowers_clean_loop w c url attempt st
             = (if attempt < maxRetries then Inl ContextCanceled
                else Inl (ExceededMaxRetries c), st')
        \<and> requests st' = Suc (requests st)
        \<and> clock st' = clock st + attempt
        \<and> sleeps (trace st') = sleeps (trace st) @ [attempt]"
    by (auto simp: retried_def)
qed

theorem cancellation_at_attempt_head_witness:
  "(2::nat) \<le> maxRetries \<and> ctx_Err (down_cancel_at_2 :: Follower world) (clock (run0\<lparr>clock := 3\<rparr>))
   \<and> fetchFollowers_clean_loop (down_cancel_at_2 :: Follower world) [] baseURL 2 (run0\<lparr>clock := 3\<rparr>)
       = (Inl ContextCanceled, run0\<lparr>clock := 3\<rparr>)
   \<and> \<not> ctx_Err (down_cancel_at_2 :: Follower world) (clock (run0\<lparr>clock := 1\<rparr>))
   \<and> request_ok (down_cancel_at_2 :: Follower world) baseURL
   \<and> spec_classify (prefix ''text/html'')
        (reply (down_cancel_at_2 :: Follower world) (requests (run0\<lparr>clock := 1\<rparr>)) baseURL) \<noteq> Success
   \<and> ctx_Err (down_cancel_at_2 :: Follower world) (clock (run0\<lparr>clock := 1\<rparr>) + 2)
   \<and> (\<exists>st'. fetchFollowers_clean_loop (down_cancel_at_2 :: Follower world) [] baseURL 2
               (run0\<lparr>clock := 1\<rparr>) = (Inl ContextCanceled, st')
        \<and> requests st' = 1 \<and> clock st' = 3)"
  using cancellation_at_attempt_head
      [of 2 "down_cancel_at_2 :: Follower world" "run0\<lparr>clock := 3\<rparr>" "[]" baseURL]
    cancellation_at_attempt_head
      [of 2 "down_cancel_at_2 :: Follower world" "run0\<lparr>clock := 1\<rparr>" "[]" baseURL]
  by (auto simp: down_cancel_at_2_def run0_def ctx_Err_def maxRetries_def)

section \<open>Properties of the pagination driver\<close>

lemma page_of_Some:
  assumes "page_of markup r = Some p"
  obtains contentType where "r = Response StatusOK (Body contentType (Some p))"
    and "\<not> markup contentType"
  using assms by (cases "(markup, r)" rule: page_of.cases) (auto split: if_splits)

lemma clean_first_attempt:
  assumes "page_of (prefix ''text/html'') (reply w (requests st) (request_url c)) = Some p"
    and "request_ok w (request_url c)" and "\<not> ctx_Err w (clock st)"
  shows "fetchFollowers_clean w c st
           = (Inr p, st\<lparr>requests := Suc (requests st),
                        trace := trace st @ [MakingRequest 1 (request_url c), Parsed]\<rparr>)"
proof -
  from assms(1) obtain ct where
    "reply w (requests st) (request_url c) = Response StatusOK (Body ct (Some p))"
    and "\<not> prefix ''text/html'' ct" by (rule page_of_Some)
  then show ?thesis using assms(2,3)
    unfolding fetchFollowers_clean_def
    by (subst fetchFollowers_clean_loop.simps)
       (simp add: http_Get_def logs_def maxRetries_def)
qed

lemma find_None_list_all: "list_all (\<lambda>f. \<not> P f) xs \<Longrightarrow> find P xs = None"
  by (simp add: find_None_iff list_all_iff)

lemma save_ok_clean:
  "save_ok flt batch \<Longrightarrow>
   saveFollowers_clean flt db batch
     = (None, db\<lparr>table := table db ++ written DID row_of batch, open_tx := None\<rparr>)"
  by (simp add: saveFollowers_clean_char save_ok_def find_None_list_all)

lemma main_clean_step_page:
  assumes "page_of (prefix ''text/html'') (reply w (requests (net s)) (request_url (cursor s))) = Some p"
    and "request_ok w (request_url (cursor s))" and "\<not> ctx_Err w (clock (net s))"
    and "save_ok (db_faults w (length (persist_calls s))) (Followers p)"
  shows "main_clean_step w s =
     (if Cursor p = [] then Some DONE else None,
      s\<lparr>net := (net s)\<lparr>requests := Suc (requests (net s)),
            trace := trace (net s) @
              (if Cursor p = [] then [MakingRequest 1 (request_url (cursor s)), Parsed, AllProcessed]
               else [MakingRequest 1 (request_url (cursor s)), Parsed])\<rparr>,
        store := (store s)\<lparr>table := table (store s) ++ written DID row_of (Followers p),
                   open_tx := None\<rparr>,
        cursor := (if Cursor p = [] then cursor s else Cursor p),
        persist_calls := persist_calls s @ [Followers p]\<rparr>)"
  using assms
  by (simp add: main_clean_step_def clean_first_attempt save_ok_clean logs_def)

lemma clean_run:
  assumes "token_chain pages"
    and "scripted (prefix ''text/html'') w (requests (net s)) (length (persist_calls s)) (cursor s) pages"
    and "\<not> ctx_Err w (clock (net s))" and "length pages \<le> fuel"
  shows "\<exists>s'. main_clean_loop fuel w s = Some (DONE, s')
           \<and> persist_calls s' = persist_calls s @ map Followers pages
           \<and> requests (net s') = requests (net s) + length pages
           \<and> clock (net s') = clock (net s)"
  using assms
proof (induction pages arbitrary: s fuel rule: token_chain.induct)
  case 1
  then show ?case by simp
next
  case (2 p)
  then obtain f where fuel: "fuel = Suc f" by (cases fuel) auto
  from 2 have "main_clean_step w s =
     (Some DONE,
      s\<lparr>net := (net s)\<lparr>requests := Suc (requests (net s)),
            trace := trace (net s) @
              [MakingRequest 1 (request_url (cursor s)), Parsed, AllProcessed]\<rparr>,
        store := (store s)\<lparr>table := table (store s) ++ written DID row_of (Followers p),
                   open_tx := None\<rparr>,
        cursor := cursor s,
        persist_calls := persist_calls s @ [Followers p]\<rparr>)"
    by (simp add: main_clean_step_page)
  then show ?case by (simp add: fuel)
next
  case (3 p q ps)
  then obtain f where fuel: "fuel = Suc f" and f: "length (q # ps) \<le> f" by (cases fuel) auto
  define s2 where "s2 =
      s\<lparr>net := (net s)\<lparr>requests := Suc (requests (net s)),
            trace := trace (net s) @ [MakingRequest 1 (request_url (cursor s)), Parsed]\<rparr>,
        store := (store s)\<lparr>table := table (store s) ++ written DID row_of (Followers p),
                   open_tx := None\<rparr>,
        cursor := Cursor p,
        persist_calls := persist_calls s @ [Followers p]\<rparr>"
  from 3 have step: "main_clean_step w s = (None, s2)"
    by (simp add: main_clean_step_page s2_def)
  have "\<exists>s'. main_clean_loop f w s2 = Some (DONE, s')
           \<and> persist_calls s' = persist_calls s2 @ map Followers (q # ps)
           \<and> requests (net s') = requests (net s2) + length (q # ps)
           \<and> clock (net s') = clock (net s2)"
  proof (rule "3.IH" [OF _ _ _ f])
    show "token_chain (q # ps)" using "3.prems"(1) by simp
    show "scripted (prefix ''text/html'') w (requests (net s2)) (length (persist_calls s2))
            (cursor s2) (q # ps)"
      using "3.prems"(2) by (simp add: s2_def)
    show "\<not> ctx_Err w (clock (net s2))" using "3.prems"(3) by (simp add: s2_def)
  qed
  then show ?case using step by (auto simp: fuel s2_def)
qed

lemma resume_first_attempt:
  assumes "page_of (\<lambda>ct. ct = ''text/html; charset=utf-8'') (reply w (requests st) (request_url c))
             = Some p"
  shows "fetchFollowers_resume w c st
           = (Inr p, st\<lparr>requests := Suc (requests st),
                        trace := trace st @ [MakingRequest 1 (request_url c), Parsed]\<rparr>)"
proof -
  from assms obtain ct where
    "reply w (requests st) (request_url c) = Response StatusOK (Body ct (Some p))"
    and "ct \<noteq> ''text/html; charset=utf-8''" by (rule page_of_Some)
  then show ?thesis
    unfolding fetchFollowers_resume_def
    by (subst fetchFollowers_resume_loop.simps)
       (simp add: http_Get_def logs_def maxRetries_def)
qed

lemma save_ok_resume:
  "save_ok flt batch \<Longrightarrow>
   saveFollowers_resume flt db batch
     = (None, db\<lparr>table := table db ++ written DID rowR_of batch, open_tx := None\<rparr>)"
  by (simp add: saveFollowers_resume_char save_ok_def find_None_list_all)

lemma main_resume_step_page:
  assumes "page_of (\<lambda>ct. ct = ''text/html; charset=utf-8'')
             (reply w (requests (net s)) (request_url (cursor s))) = Some p"
    and "save_ok (db_faults w (length (persist_calls s))) (Followers p)"
  shows "main_resume_step w s =
     (if Cursor p = [] then Some DONE else None,
      s\<lparr>net := (net s)\<lparr>requests := Suc (requests (net s)),
            trace := trace (net s) @
              (if Cursor p = [] then [MakingRequest 1 (request_url (cursor s)), Parsed, AllProcessed]
               else [MakingRequest 1 (request_url (cursor s)), Parsed])\<rparr>,
        store := (store s)\<lparr>table := table (store s) ++ written DID rowR_of (Followers p),
                   open_tx := None\<rparr>,
        cursor := (if Cursor p = [] then cursor s else Cursor p),
        persist_calls := persist_calls s @ [Followers p]\<rparr>)"
  using assms
  by (simp add: main_resume_step_def resume_first_attempt save_ok_resume logs_def)

lemma resume_run:
  assumes "token_chain pages"
    and "scripted (\<lambda>ct. ct = ''text/html; charset=utf-8'') w (requests (net s))
           (length (persist_calls s)) (cursor s) pages"
    and "length pages \<le> fuel"
  shows "\<exists>s'. main_resume_loop fuel w s = Some (DONE, s')
           \<and> persist_calls s' = persist_calls s @ map Followers pages
           \<and> requests (net s') = requests (net s) + length pages
           \<and> clock (net s') = clock (net s)"
  using assms
proof (induction pages arbitrary: s fuel rule: token_chain.induct)
  case 1
  then show ?case by simp
next
  case (2 p)
  then obtain f where fuel: "fuel = Suc f" by (cases fuel) auto
  from 2 have "main_resume_step w s =
     (Some DONE,
      s\<lparr>net := (net s)\<lparr>requests := Suc (requests (net s)),
            trace := trace (net s) @
              [MakingRequest 1 (request_url (cursor s)), Parsed, AllProcessed]\<rparr>,
        store := (store s)\<lparr>table := table (store s) ++ written DID rowR_of (Followers p),
                   open_tx := None\<rparr>,
        cursor := cursor s,
        persist_calls := persist_calls s @ [Followers p]\<rparr>)"
    by (simp add: main_resume_step_page)
  then show ?case by (simp add: fuel)
next
  case (3 p q ps)
  then obtain f where fuel: "fuel = Suc f" and f: "length (q # ps) \<le> f" by (cases fuel) auto
  define s2 where "s2 =
      s\<lparr>net := (net s)\<lparr>requests := Suc (requests (net s)),
            trace := trace (net s) @ [MakingRequest 1 (request_url (cursor s)), Parsed]\<rparr>,
        store := (store s)\<lparr>table := table (store s) ++ written DID rowR_of (Followers p),
                   open_tx := None\<rparr>,
        cursor := Cursor p,
        persist_calls := persist_calls s @ [Followers p]\<rparr>"
  from 3 have step: "main_resume_step w s = (None, s2)"
    by (simp add: main_resume_step_page s2_def)
  have "\<exists>s'. main_resume_loop f w s2 = Some (DONE, s')
           \<and> persist_calls s' = persist_calls s2 @ map Followers (q # ps)
           \<and> requests (net s') = requests (net s2) + length (q # ps)
           \<and> clock (net s') = clock (net s2)"
  proof (rule "3.IH" [OF _ _ f])
    show "token_chain (q # ps)" using "3.prems"(1) by simp
    show "scripted (\<lambda>ct. ct = ''text/html; charset=utf-8'') w (requests (net s2))
            (length (persist_calls s2)) (cursor s2) (q # ps)"
      using "3.prems"(2) by (simp add: s2_def)
  qed
  then show ?case using step by (auto simp: fuel s2_def)
qed

text \<open>
  C7. Pagination termination: the server serves a list of pages, each asked for with the
  cursor of the page before it and the first with the empty cursor; only the last page
  has the empty cursor; nothing fails and the context is not cancelled. Then \<^verbatim>\<open>main\<close>,
  given at least as much fuel as there are pages, leaves its loop by \<^verbatim>\<open>break\<close> (\<open>DONE\<close>);
  it has called \<^verbatim>\<open>saveFollowers\<close> once per page, with the records of the pages in their
  order, and has sent one request per page and no more. Stated for the clean-start
  variant and for \<^verbatim>\<open>unnamed/part_001\<close> started with the empty cursor.
\<close>

theorem pagination_terminates:
  "(token_chain pages \<longrightarrow> scripted (prefix ''text/html'') w 0 0 [] pages \<longrightarrow>
      \<not> ctx_Err w 0 \<longrightarrow> length pages \<le> fuel \<longrightarrow>
      (\<exists>s'. main_clean fuel w db = Some (DONE, s')
         \<and> persist_calls s' = map Followers pages
         \<and> requests (net s') = length pages))
   \<and> (token_chain pagesR \<longrightarrow>
      scripted (\<lambda>ct. ct = ''text/html; charset=utf-8'') wR 0 0 [] pagesR \<longrightarrow>
      length pagesR \<le> fuel \<longrightarrow>
      (\<exists>s'. main_resume fuel wR [] dbR = Some (DONE, s')
         \<and> persist_calls s' = map Followers pagesR
         \<and> requests (net s') = length pagesR))"
proof (intro conjI impI)
  assume "token_chain pages" "scripted (prefix ''text/html'') w 0 0 [] pages"
    "\<not> ctx_Err w 0" "length pages \<le> fuel"
  with clean_run [of pages w "start db []" fuel]
  show "\<exists>s'. main_clean fuel w db = Some (DONE, s')
         \<and> persist_calls s' = map Followers pages
         \<and> requests (net s') = length pages"
    by (auto simp: main_clean_def start_def)
next
  assume "token_chain pagesR"
    "scripted (\<lambda>ct. ct = ''text/html; charset=utf-8'') wR 0 0 [] pagesR"
    "length pagesR \<le> fuel"
  with resume_run [of pagesR wR "start dbR []" fuel]
  show "\<exists>s'. main_resume fuel wR [] dbR = Some (DONE, s')
         \<and> persist_calls s' = map Followers pagesR
         \<and> requests (net s') = length pagesR"
    by (auto simp: main_resume_def start_def)
qed

theorem pagination_terminates_witness:
  "token_chain [\<lparr>Followers = [basic testFollower1], Cursor = ''a''\<rparr>,
                \<lparr>Followers = [basic testFollower2], Cursor = ''b''\<rparr>,
                \<lparr>Followers = [basic testFollower3], Cursor = []\<rparr>]
   \<and> scripted (prefix ''text/html'') three_pages_basic 0 0 []
        [\<lparr>Followers = [basic testFollower1], Cursor = ''a''\<rparr>,
         \<lparr>Followers = [basic testFollower2], Cursor = ''b''\<rparr>,
         \<lparr>Followers = [basic testFollower3], Cursor = []\<rparr>]
   \<and> \<not> ctx_Err three_pages_basic 0
   \<and> (\<exists>s'. main_clean 3 three_pages_basic empty_db = Some (DONE, s')
         \<and> persist_calls s' = [[basic testFollower1], [basic testFollower2], [basic testFollower3]]
         \<and> requests (net s') = 3)
   \<and> scripted (\<lambda>ct. ct = ''text/html; charset=utf-8'') three_pages 0 0 []
        [\<lparr>Followers = [testFollower1], Cursor = ''a''\<rparr>,
         \<lparr>Followers = [testFollower2], Cursor = ''b''\<rparr>,
         \<lparr>Followers = [testFollower3], Cursor = []\<rparr>]
   \<and> (\<exists>s'. main_resume 3 three_pages [] empty_db = Some (DONE, s')
         \<and> persist_calls s' = [[testFollower1], [testFollower2], [testFollower3]]
         \<and> requests (net s') = 3)"
  using pagination_terminates
    [of "[\<lparr>Followers = [basic testFollower1], Cursor = ''a''\<rparr>,
          \<lparr>Followers = [basic testFollower2], Cursor = ''b''\<rparr>,
          \<lparr>Followers = [basic testFollower3], Cursor = []\<rparr>]"
        three_pages_basic 3
        empty_db
        "[\<lparr>Followers = [testFollower1], Cursor = ''a''\<rparr>,
          \<lparr>Followers = [testFollower2], Cursor = ''b''\<rparr>,
          \<lparr>Followers = [testFollower3], Cursor = []\<rparr>]"
        three_pages empty_db]
  by (auto simp: three_pages_def three_pages_basic_def page_def request_url_def StatusOK_def
        save_ok_def no_faults_def ctx_Err_def)

lemma save_clean_None:
  "saveFollowers_clean flt db B = (None, d) \<Longrightarrow>
   d = db\<lparr>table := table db ++ written DID row_of B, open_tx := None\<rparr>"
  by (auto simp: saveFollowers_clean_char split: if_splits option.splits)

lemma save_resume_None:
  "saveFollowers_resume flt db B = (None, d) \<Longrightarrow>
   d = db\<lparr>table := table db ++ written DID rowR_of B, open_tx := None\<rparr>"
  by (auto simp: saveFollowers_resume_char split: if_splits option.splits)

text \<open>
  C6. Driver invariant, for one pass through the loop body of the clean-start \<^verbatim>\<open>main\<close>
  and of the \<^verbatim>\<open>main\<close> of \<^verbatim>\<open>unnamed/part_001\<close>: a pass that ends the run (done, failed or
  cancelled) leaves the cursor as it was; a pass that changes the cursor is one in which
  the fetch returned a page, \<^verbatim>\<open>saveFollowers\<close> returned no error for its records, which are
  then in the committed table, and the new cursor is the cursor of that page. So the
  cursor is unchanged by a pass in which the fetch or the save fails.
\<close>

theorem token_advances_after_commit:
  "(main_clean_step w s = (st, s') \<longrightarrow>
      (st \<noteq> None \<longrightarrow> cursor s' = cursor s)
      \<and> (cursor s' \<noteq> cursor s \<longrightarrow>
           (\<exists>apiResp n. fetchFollowers_clean w (cursor s) (net s) = (Inr apiResp, n)
              \<and> saveFollowers_clean (db_faults w (length (persist_calls s))) (store s)
                   (Followers apiResp) = (None, store s')
              \<and> table (store s') = table (store s) ++ written DID row_of (Followers apiResp)
              \<and> cursor s' = Cursor apiResp)))
   \<and> (main_resume_step wR sR = (stR, sR') \<longrightarrow>
      (stR \<noteq> None \<longrightarrow> cursor sR' = cursor sR)
      \<and> (cursor sR' \<noteq> cursor sR \<longrightarrow>
           (\<exists>apiResp n. fetchFollowers_resume wR (cursor sR) (net sR) = (Inr apiResp, n)
              \<and> saveFollowers_resume (db_faults wR (length (persist_calls sR))) (store sR)
                   (Followers apiResp) = (None, store sR')
              \<and> table (store sR') = table (store sR) ++ written DID rowR_of (Followers apiResp)
              \<and> cursor sR' = Cursor apiResp)))"
proof (intro conjI impI)
  assume a: "main_clean_step w s = (st, s')"
  show "cursor s' = cursor s" if "st \<noteq> None"
    using a that
    by (auto simp: main_clean_step_def net_logs_def
          split: if_splits prod.splits sum.splits option.splits)
  show "\<exists>apiResp n. fetchFollowers_clean w (cursor s) (net s) = (Inr apiResp, n)
              \<and> saveFollowers_clean (db_faults w (length (persist_calls s))) (store s)
                   (Followers apiResp) = (None, store s')
              \<and> table (store s') = table (store s) ++ written DID row_of (Followers apiResp)
              \<and> cursor s' = Cursor apiResp" if "cursor s' \<noteq> cursor s"
    using a that
    by (auto simp: main_clean_step_def net_logs_def dest: save_clean_None
          split: if_splits prod.splits sum.splits option.splits)
next
  assume a: "main_resume_step wR sR = (stR, sR')"
  show "cursor sR' = cursor sR" if "stR \<noteq> None"
    using a that
    by (auto simp: main_resume_step_def
          split: if_splits prod.splits sum.splits option.splits)
  show "\<exists>apiResp n. fetchFollowers_resume wR (cursor sR) (net sR) = (Inr apiResp, n)
              \<and> saveFollowers_resume (db_faults wR (length (persist_calls sR))) (store sR)
                   (Followers apiResp) = (None, store sR')
              \<and> table (store sR') = table (store sR) ++ written DID rowR_of (Followers apiResp)
              \<and> cursor sR' = Cursor apiResp" if "cursor sR' \<noteq> cursor sR"
    using a that
    by (auto simp: main_resume_step_def dest: save_resume_None
          split: if_splits prod.splits sum.splits option.splits)
qed

lemma step1_basic_eval:
  "main_clean_step three_pages_basic (start empty_db []) = (None, step1_basic)"
  by (simp add: main_clean_step_def fetchFollowers_clean_def fetchFollowers_clean_loop.simps
        three_pages_basic_def start_def empty_db_def step1_basic_def page_def request_url_def
        ctx_Err_def maxRetries_def StatusOK_def http_Get_def logs_def
        saveFollowers_clean_def no_faults_def db_Begin_def tx_Exec_def tx_Commit_def basic_def
        testFollower1_def)

lemma step1_eval:
  "main_resume_step three_pages (start empty_db []) = (None, step1)"
  by (simp add: main_resume_step_def fetchFollowers_resume_def fetchFollowers_resume_loop.simps
        three_pages_def start_def empty_db_def step1_def page_def request_url_def
        maxRetries_def StatusOK_def http_Get_def logs_def
        saveFollowers_resume_def no_faults_def db_Begin_def tx_Exec_def tx_Commit_def
        testFollower1_def)

theorem token_advances_after_commit_witness:
  "main_clean_step three_pages_basic (start empty_db []) = (None, step1_basic)
   \<and> cursor step1_basic \<noteq> cursor (start empty_db [] :: (Follower, row) pipeline)
   \<and> (\<exists>apiResp n.
         fetchFollowers_clean three_pages_basic (cursor (start empty_db [] :: (Follower, row) pipeline))
           (net (start empty_db [] :: (Follower, row) pipeline)) = (Inr apiResp, n)
         \<and> cursor step1_basic = Cursor apiResp)
   \<and> main_resume_step three_pages (start empty_db []) = (None, step1)
   \<and> cursor step1 \<noteq> cursor (start empty_db [] :: (FollowerR, rowR) pipeline)
   \<and> (\<exists>apiResp n.
         fetchFollowers_resume three_pages (cursor (start empty_db [] :: (FollowerR, rowR) pipeline))
           (net (start empty_db [] :: (FollowerR, rowR) pipeline)) = (Inr apiResp, n)
         \<and> cursor step1 = Cursor apiResp)"
proof -
  have c: "cursor step1_basic \<noteq> cursor (start empty_db [] :: (Follower, row) pipeline)"
    "cursor step1 \<noteq> cursor (start empty_db [] :: (FollowerR, rowR) pipeline)"
    by (simp_all add: step1_basic_def step1_def start_def)
  from token_advances_after_commit
    [of three_pages_basic "start empty_db []" None step1_basic
        three_pages "start empty_db []" None step1]
    step1_basic_eval step1_eval c
  show ?thesis by blast
qed

text \<open>
  C5, as stated, fails for the resume variants: the server is down for five requests, so
  the first \<^verbatim>\<open>fetchFollowers\<close> returns \<^verbatim>\<open>exceeded max retries\<close>; \<^verbatim>\<open>main\<close> of
  \<^verbatim>\<open>unnamed/part_001\<close> logs the error, sleeps two seconds, fetches again and ends with
  \<^verbatim>\<open>break\<close>, not with a failure.
\<close>

theorem resume_driver_retries_counterexample:
  "fetchFollowers_resume down_then_last_page [] run0 = (Inl (ExceededMaxRetries []), exhausted)
   \<and> main_resume 2 down_then_last_page [] empty_db
       = Some (DONE,
           \<lparr>net = \<lparr>clock = 17, requests = 6,
                   trace = trace exhausted @
                     [ErrorFetching (ExceededMaxRetries []), Slept 2,
                      MakingRequest 1 baseURL, Parsed, AllProcessed]\<rparr>,
            store = empty_db, cursor = [], persist_calls = [[]]\<rparr>)"
  by (simp add: main_resume_def main_resume_step_def fetchFollowers_resume_def
        fetchFollowers_resume_loop.simps down_then_last_page_def start_def empty_db_def
        run0_def exhausted_def page_def request_url_def eval_nat_numeral
        maxRetries_def StatusOK_def http_Get_def logs_def time_Sleep_def
        saveFollowers_resume_def no_faults_def db_Begin_def tx_Exec_def tx_Commit_def)

lemma main_resume_loop_never_fails:
  "main_resume_loop fuel w s \<noteq> Some (FAILED e, x)"
proof (induction fuel arbitrary: s)
  case 0
  show ?case by simp
next
  case (Suc fuel)
  obtain st s' where step: "main_resume_step w s = (st, s')"
    by (cases "main_resume_step w s")
  then have "st = None \<or> st = Some DONE"
    by (auto simp: main_resume_step_def split: prod.splits sum.splits option.splits if_splits)
  then show ?case using step Suc.IH [of s'] by auto
qed

lemma main_resume_ctx_loop_never_fails:
  "main_resume_ctx_loop fuel w s \<noteq> Some (FAILED e, x)"
proof (induction fuel arbitrary: s)
  case 0
  show ?case by simp
next
  case (Suc fuel)
  obtain st s' where step: "main_resume_ctx_step w s = (st, s')"
    by (cases "main_resume_ctx_step w s")
  then have "st = None \<or> st = Some DONE \<or> st = Some CANCELLED"
    by (auto simp: main_resume_ctx_step_def split: prod.splits sum.splits option.splits if_splits)
  then show ?case using step Suc.IH [of s'] by auto
qed

text \<open>
  C5, amended. In the clean-start \<^verbatim>\<open>main\<close> an error of \<^verbatim>\<open>fetchFollowers\<close> (with the
  context not cancelled) or of \<^verbatim>\<open>saveFollowers\<close> ends the run as \<open>FAILED\<close> with that
  error. In the resume variants (\<^verbatim>\<open>unnamed/part_001\<close>, and the second program of
  \<^verbatim>\<open>clean_start/main.go\<close>) neither error ends the run: the loop goes round again with the
  same cursor, after a sleep of two seconds when the fetch failed, and no run of them ends
  as \<open>FAILED\<close>.
\<close>

theorem driver_on_error:
  "(\<not> ctx_Err w (clock (net s)) \<longrightarrow>
      fetchFollowers_clean w (cursor s) (net s) = (Inl err, n) \<longrightarrow> \<not> ctx_Err w (clock n) \<longrightarrow>
      main_clean_loop (Suc fuel) w s
        = Some (FAILED err, s\<lparr>net := logs (ErrorFetching err) n\<rparr>))
   \<and> (\<not> ctx_Err w (clock (net s)) \<longrightarrow>
      fetchFollowers_clean w (cursor s) (net s) = (Inr apiResp, n) \<longrightarrow>
      saveFollowers_clean (db_faults w (length (persist_calls s))) (store s) (Followers apiResp)
        = (Some err, d) \<longrightarrow>
      main_clean_loop (Suc fuel) w s
        = Some (FAILED err,
            s\<lparr>net := logs (ErrorSaving err) n, store := d,
              persist_calls := persist_calls s @ [Followers apiResp]\<rparr>))
   \<and> (fetchFollowers_resume wR (cursor sR) (net sR) = (Inl err, n) \<longrightarrow>
      main_resume_loop (Suc fuel) wR sR
        = main_resume_loop fuel wR (sR\<lparr>net := time_Sleep 2 (logs (ErrorFetching err) n)\<rparr>))
   \<and> (fetchFollowers_resume wR (cursor sR) (net sR) = (Inr apiRespR, n) \<longrightarrow>
      saveFollowers_resume (db_faults wR (length (persist_calls sR))) (store sR)
        (Followers apiRespR) = (Some err, dR) \<longrightarrow>
      main_resume_loop (Suc fuel) wR sR
        = main_resume_loop fuel wR
            (sR\<lparr>net := logs (ErrorSaving err) n, store := dR,
               persist_calls := persist_calls sR @ [Followers apiRespR]\<rparr>))
   \<and> (\<not> ctx_Err wR (clock (net sR)) \<longrightarrow>
      fetchFollowers_resume_ctx wR (cursor sR) (net sR) = (Inl err, n) \<longrightarrow>
      \<not> ctx_Err wR (clock n) \<longrightarrow>
      main_resume_ctx_loop (Suc fuel) wR sR
        = main_resume_ctx_loop fuel wR
            (sR\<lparr>net := time_Sleep 2 (logs (ErrorFetching err) n)\<rparr>))
   \<and> (\<not> ctx_Err wR (clock (net sR)) \<longrightarrow>
      fetchFollowers_resume_ctx wR (cursor sR) (net sR) = (Inr apiRespR, n) \<longrightarrow>
      saveFollowers_resume (db_faults wR (length (persist_calls sR))) (store sR)
        (Followers apiRespR) = (Some err, dR) \<longrightarrow>
      main_resume_ctx_loop (Suc fuel) wR sR
        = main_resume_ctx_loop fuel wR
            (sR\<lparr>net := logs (ErrorSaving err) n, store := dR,
               persist_calls := persist_calls sR @ [Followers apiRespR]\<rparr>))
   \<and> main_resume_loop fuel wR sR \<noteq> Some (FAILED e, x)
   \<and> main_resume_ctx_loop fuel wR sR \<noteq> Some (FAILED e, x)"
  by (intro conjI impI main_resume_loop_never_fails main_resume_ctx_loop_never_fails)
     (simp_all add: main_clean_step_def main_resume_step_def main_resume_ctx_step_def)

lemma all_down_clean_eval:
  "fetchFollowers_clean (all_down :: Follower world) [] run0
     = (Inl (ExceededMaxRetries []), exhausted)"
  by (simp add: fetchFollowers_clean_def fetchFollowers_clean_loop.simps all_down_def
        run0_def exhausted_def request_url_def ctx_Err_def maxRetries_def StatusOK_def
        http_Get_def logs_def time_Sleep_def)

lemma all_down_resume_eval:
  "fetchFollowers_resume (all_down :: FollowerR world) [] run0
     = (Inl (ExceededMaxRetries []), exhausted)"
  by (simp add: fetchFollowers_resume_def fetchFollowers_resume_loop.simps all_down_def
        run0_def exhausted_def request_url_def maxRetries_def StatusOK_def
        http_Get_def logs_def time_Sleep_def)

lemma all_down_resume_ctx_eval:
  "fetchFollowers_resume_ctx (all_down :: FollowerR world) [] run0
     = (Inl (ExceededMaxRetries []), exhausted)"
  by (simp add: fetchFollowers_resume_ctx_def fetchFollowers_resume_ctx_loop.simps all_down_def
        run0_def exhausted_def request_url_def ctx_Err_def maxRetries_def StatusOK_def
        http_Get_def logs_def time_Sleep_def)

lemma bad_disk_clean_eval:
  "fetchFollowers_clean (bad_disk :: Follower world) [] run0
     = (Inr \<lparr>Followers = [], Cursor = []\<rparr>, got_page)"
  by (simp add: fetchFollowers_clean_def fetchFollowers_clean_loop.simps bad_disk_def page_def
        run0_def got_page_def request_url_def ctx_Err_def maxRetries_def StatusOK_def
        http_Get_def logs_def)

lemma bad_disk_resume_eval:
  "fetchFollowers_resume (bad_disk :: FollowerR world) [] run0
     = (Inr \<lparr>Followers = [], Cursor = []\<rparr>, got_page)"
  by (simp add: fetchFollowers_resume_def fetchFollowers_resume_loop.simps bad_disk_def page_def
        run0_def got_page_def request_url_def maxRetries_def StatusOK_def
        http_Get_def logs_def)

lemma bad_disk_resume_ctx_eval:
  "fetchFollowers_resume_ctx (bad_disk :: FollowerR world) [] run0
     = (Inr \<lparr>Followers = [], Cursor = []\<rparr>, got_page)"
  by (simp add: fetchFollowers_resume_ctx_def fetchFollowers_resume_ctx_loop.simps bad_disk_def
        page_def run0_def got_page_def request_url_def ctx_Err_def maxRetries_def StatusOK_def
        http_Get_def logs_def)

lemma bad_disk_save_eval:
  "saveFollowers_clean (db_faults (bad_disk :: Follower world) 0) empty_db []
     = (Some CommitFailed, empty_db)"
  "saveFollowers_resume (db_faults (bad_disk :: FollowerR world) 0) empty_db []
     = (Some CommitFailed, empty_db)"
  by (simp_all add: saveFollowers_clean_def saveFollowers_resume_def bad_disk_def no_faults_def
        empty_db_def db_Begin_def tx_Rollback_def)

lemma start_fields:
  "net (start db c) = run0" "cursor (start db c) = c" "store (start db c) = db"
  "persist_calls (start db c) = []"
  by (simp_all add: start_def run0_def)

theorem driver_on_error_witness:
  "main_clean_loop (Suc 0) all_down (start empty_db [])
     = Some (FAILED (ExceededMaxRetries []),
         (start empty_db [])\<lparr>net := logs (ErrorFetching (ExceededMaxRetries [])) exhausted\<rparr>)
   \<and> main_clean_loop (Suc 0) bad_disk (start empty_db [])
     = Some (FAILED CommitFailed,
         (start empty_db [])\<lparr>net := logs (ErrorSaving CommitFailed) got_page, store := empty_db,
            persist_calls := persist_calls (start empty_db []) @ [[]]\<rparr>)
   \<and> main_resume_loop (Suc 0) all_down (start empty_db [])
     = main_resume_loop 0 all_down
         ((start empty_db [])\<lparr>net := time_Sleep 2 (logs (ErrorFetching (ExceededMaxRetries [])) exhausted)\<rparr>)
   \<and> main_resume_loop (Suc 0) bad_disk (start empty_db [])
     = main_resume_loop 0 bad_disk
         ((start empty_db [])\<lparr>net := logs (ErrorSaving CommitFailed) got_page, store := empty_db,
            persist_calls := persist_calls (start empty_db []) @ [[]]\<rparr>)
   \<and> main_resume_ctx_loop (Suc 0) all_down (start empty_db [])
     = main_resume_ctx_loop 0 all_down
         ((start empty_db [])\<lparr>net := time_Sleep 2 (logs (ErrorFetching (ExceededMaxRetries [])) exhausted)\<rparr>)
   \<and> main_resume_ctx_loop (Suc 0) bad_disk (start empty_db [])
     = main_resume_ctx_loop 0 bad_disk
         ((start empty_db [])\<lparr>net := logs (ErrorSaving CommitFailed) got_page, store := empty_db,
            persist_calls := persist_calls (start empty_db []) @ [[]]\<rparr>)"
proof -
  have nc: "\<not> ctx_Err (all_down :: Follower world) t" "\<not> ctx_Err (all_down :: FollowerR world) t"
    "\<not> ctx_Err (bad_disk :: Follower world) t" "\<not> ctx_Err (bad_disk :: FollowerR world) t" for t
    by (simp_all add: ctx_Err_def all_down_def bad_disk_def)
  note f = driver_on_error
    [where w = "all_down :: Follower world" and s = "start empty_db []"
       and wR = "all_down :: FollowerR world" and sR = "start empty_db []"
       and err = "ExceededMaxRetries []" and n = exhausted and fuel = 0]
  note p = driver_on_error
    [where w = "bad_disk :: Follower world" and s = "start empty_db []"
       and wR = "bad_disk :: FollowerR world" and sR = "start empty_db []"
       and err = CommitFailed and n = got_page and fuel = 0
       and apiResp = "\<lparr>Followers = [], Cursor = []\<rparr>" and d = empty_db
       and apiRespR = "\<lparr>Followers = [], Cursor = []\<rparr>" and dR = empty_db]
  show ?thesis
    using f p nc all_down_clean_eval all_down_resume_eval all_down_resume_ctx_eval
      bad_disk_clean_eval bad_disk_resume_eval bad_disk_resume_ctx_eval bad_disk_save_eval
    by (simp add: start_fields)
qed

end
